theory Spec2Isabelle
  imports Complex_Main "HOL-Library.Monad_Syntax"
begin

section \<open>The gesture controller of SolarHand\<close>

text \<open>
  The development embeds the class \<open>GestureController\<close> (the gesture classifier and the
  temporal interaction state machine of the repository) and proves properties of it.

  Conventions of the embedding.
  \<^item> JavaScript numbers that hold coordinates, distances and sensitivities are real
    numbers: rounding, infinities and NaN are outside the model. The one division of the
    code, in \<open>isThumbExtended\<close>, has its zero divisor written out (JavaScript yields
    \<open>+Infinity\<close> there, HOL yields \<open>0\<close>).
  \<^item> \<open>Date.now()\<close> returns whole milliseconds: times and durations are integers, and every
    call of \<open>Date.now()\<close> is an input of its own.
  \<^item> A planet name is a string or \<open>null\<close>; \<open>null\<close> and \<open>undefined\<close> are both \<open>None\<close>
    (the code compares names with \<open>===\<close> only where one side is truthy, so the two are never
    told apart).
  \<^item> The scene subsystem and the subscribers of the event bus are external: a call into the
    scene and an emitted event are entries of an effect log, in call order. What the
    controller reads from outside (the clock, the camera radius, the hit test, the window
    size) comes in through a record of inputs.
  \<^item> Reading a property of \<open>undefined\<close> throws a TypeError. The helpers return \<open>None\<close> where
    the code throws; \<open>processHand\<close> returns the outcome together with the controller as
    the throw leaves it.
\<close>

subsection \<open>Data\<close>

type_synonym pid = "string option"

definition truthy :: "pid \<Rightarrow> bool" where
  "truthy p = (case p of None \<Rightarrow> False | Some n \<Rightarrow> n \<noteq> [])"

record point =
  p_x :: real
  p_y :: real
  p_z :: "real option"

record vec2 =
  v_x :: real
  v_y :: real

datatype gesture = Rotate | Pinch | Point | Fist | Palm

datatype finger = Index | Middle | Ring | Pinky

datatype event =
    GestureEvent gesture
  | PlanetSelected pid
  | PlanetFollowing pid
  | CameraReset

datatype effect =
    AdjustRotation real real
  | AdjustZoom real
  | HighlightPlanet pid
  | SelectPlanet pid
  | FocusOnPlanet pid
  | FollowPlanet pid
  | StopFollowing
  | ResetView
  | Emit event

datatype outcome = Returned | TypeError

record controller =
  currentGesture :: "gesture option"
  previousGesture :: "gesture option"
  gestureStartTime :: int
  gestureDuration :: int
  handPosition :: vec2
  previousHandPosition :: vec2
  handVelocity :: vec2
  pinchDistance :: real
  previousPinchDistance :: real
  basePinchDistance :: real
  isPinching :: bool
  hoveredPlanet :: pid
  selectedPlanet :: pid
  followingPlanet :: pid
  hoverStartTime :: int
  hoverDuration :: int
  rotationSensitivity :: real
  zoomSensitivity :: real

text \<open>
  The inputs of one call of \<open>processHand\<close>: the four readings of \<open>Date.now()\<close> (at the
  gesture change, for the gesture duration, at the hover change, for the hover duration),
  \<open>solarSystem.cameraOrbit.radius\<close>, the hit test of the scene and the window size.
\<close>

record env =
  now_gestureStart :: int
  now_gestureDuration :: int
  now_hoverStart :: int
  now_hoverDuration :: int
  cameraOrbit_radius :: real
  getPlanetAtScreenPosition :: "real \<Rightarrow> real \<Rightarrow> pid"
  innerWidth :: real
  innerHeight :: real

abbreviation WRIST :: nat where "WRIST \<equiv> 0"
abbreviation THUMB_MCP :: nat where "THUMB_MCP \<equiv> 2"
abbreviation THUMB_IP :: nat where "THUMB_IP \<equiv> 3"
abbreviation THUMB_TIP :: nat where "THUMB_TIP \<equiv> 4"
abbreviation INDEX_MCP :: nat where "INDEX_MCP \<equiv> 5"
abbreviation INDEX_PIP :: nat where "INDEX_PIP \<equiv> 6"
abbreviation INDEX_TIP :: nat where "INDEX_TIP \<equiv> 8"
abbreviation MIDDLE_MCP :: nat where "MIDDLE_MCP \<equiv> 9"
abbreviation MIDDLE_PIP :: nat where "MIDDLE_PIP \<equiv> 10"
abbreviation MIDDLE_TIP :: nat where "MIDDLE_TIP \<equiv> 12"
abbreviation RING_MCP :: nat where "RING_MCP \<equiv> 13"
abbreviation RING_PIP :: nat where "RING_PIP \<equiv> 14"
abbreviation RING_TIP :: nat where "RING_TIP \<equiv> 16"
abbreviation PINKY_MCP :: nat where "PINKY_MCP \<equiv> 17"
abbreviation PINKY_PIP :: nat where "PINKY_PIP \<equiv> 18"
abbreviation PINKY_TIP :: nat where "PINKY_TIP \<equiv> 20"

text \<open>The constructor. The thresholds other than the pinch threshold are never read.\<close>

definition PINCH_THRESHOLD :: real where
  "PINCH_THRESHOLD = 0.08"

definition init :: controller where
  "init = \<lparr> currentGesture = None, previousGesture = None,
            gestureStartTime = 0, gestureDuration = 0,
            handPosition = \<lparr> v_x = 0.5, v_y = 0.5 \<rparr>,
            previousHandPosition = \<lparr> v_x = 0.5, v_y = 0.5 \<rparr>,
            handVelocity = \<lparr> v_x = 0, v_y = 0 \<rparr>,
            pinchDistance = 0, previousPinchDistance = 0, basePinchDistance = 0,
            isPinching = False,
            hoveredPlanet = None, selectedPlanet = None, followingPlanet = None,
            hoverStartTime = 0, hoverDuration = 0,
            rotationSensitivity = 3, zoomSensitivity = 100 \<rparr>"

subsection \<open>Geometry\<close>

text \<open>\<open>landmarks[i]\<close>: \<open>None\<close> where the array has no such entry (the value \<open>undefined\<close>).\<close>

definition lm_at :: "point list \<Rightarrow> nat \<Rightarrow> point option" where
  "lm_at landmarks i = (if i < length landmarks then Some (landmarks ! i) else None)"

text \<open>\<open>p.z || 0\<close>: a missing \<open>z\<close> counts as \<open>0\<close>.\<close>

definition z_or_0 :: "point \<Rightarrow> real" where
  "z_or_0 p = (case p_z p of None \<Rightarrow> 0 | Some z \<Rightarrow> z)"

definition distance :: "point \<Rightarrow> point \<Rightarrow> real" where
  "distance p1 p2 =
     (let dx = p_x p1 - p_x p2;
          dy = p_y p1 - p_y p2;
          dz = z_or_0 p1 - z_or_0 p2
      in sqrt (dx * dx + dy * dy + dz * dz))"

definition getPalmCenter :: "point list \<Rightarrow> vec2 option" where
  "getPalmCenter landmarks = do {
     wrist \<leftarrow> lm_at landmarks WRIST;
     indexMcp \<leftarrow> lm_at landmarks INDEX_MCP;
     pinkyMcp \<leftarrow> lm_at landmarks PINKY_MCP;
     Some \<lparr> v_x = (p_x wrist + p_x indexMcp + p_x pinkyMcp) / 3,
            v_y = (p_y wrist + p_y indexMcp + p_y pinkyMcp) / 3 \<rparr>
   }"

text \<open>
  \<open>tipToIp / ipToMcp > 0.5\<close> is evaluated only when \<open>tipToIp > 0.03\<close>; with \<open>ipToMcp = 0\<close>
  the quotient is then \<open>+Infinity\<close> and the comparison is true.
\<close>

definition isThumbExtended :: "point list \<Rightarrow> bool option" where
  "isThumbExtended landmarks = do {
     thumbTip \<leftarrow> lm_at landmarks THUMB_TIP;
     thumbIp \<leftarrow> lm_at landmarks THUMB_IP;
     thumbMcp \<leftarrow> lm_at landmarks THUMB_MCP;
     let tipToIp = distance thumbTip thumbIp;
         ipToMcp = distance thumbIp thumbMcp
     in Some (tipToIp > 0.03 \<and> (if ipToMcp = 0 then True else tipToIp / ipToMcp > 0.5))
   }"

text \<open>\<open>fingerMap\<close>: the indices of tip, pip and mcp of a finger.\<close>

fun fingerMap :: "finger \<Rightarrow> nat \<times> nat \<times> nat" where
  "fingerMap Index = (INDEX_TIP, INDEX_PIP, INDEX_MCP)"
| "fingerMap Middle = (MIDDLE_TIP, MIDDLE_PIP, MIDDLE_MCP)"
| "fingerMap Ring = (RING_TIP, RING_PIP, RING_MCP)"
| "fingerMap Pinky = (PINKY_TIP, PINKY_PIP, PINKY_MCP)"

text \<open>The mcp entry is read from the array but none of its properties is, so it cannot throw.\<close>

definition isFingerExtended :: "point list \<Rightarrow> finger \<Rightarrow> bool option" where
  "isFingerExtended landmarks f =
     (case fingerMap f of (tipI, pipI, mcpI) \<Rightarrow> do {
        tip \<leftarrow> lm_at landmarks tipI;
        pip \<leftarrow> lm_at landmarks pipI;
        let tipY = p_y tip; pipY = p_y pip
        in Some (tipY < pipY - 0.02)
      })"

subsection \<open>The classifier\<close>

text \<open>
  \<open>detectGesture\<close> dereferences every landmark it needs before its first assignment, so
  where it throws the controller is as it was: \<open>None\<close> needs no controller.
\<close>

definition detectGesture :: "controller \<Rightarrow> env \<Rightarrow> point list \<Rightarrow> (gesture \<times> controller) option" where
  "detectGesture s e landmarks = do {
     thumbExtended \<leftarrow> isThumbExtended landmarks;
     indexExtended \<leftarrow> isFingerExtended landmarks Index;
     middleExtended \<leftarrow> isFingerExtended landmarks Middle;
     ringExtended \<leftarrow> isFingerExtended landmarks Ring;
     pinkyExtended \<leftarrow> isFingerExtended landmarks Pinky;
     thumbTip \<leftarrow> lm_at landmarks THUMB_TIP;
     indexTip \<leftarrow> lm_at landmarks INDEX_TIP;
     let s1 = s\<lparr> previousPinchDistance := pinchDistance s \<rparr>;
         s2 = s1\<lparr> pinchDistance := distance thumbTip indexTip \<rparr>
     in if pinchDistance s2 < PINCH_THRESHOLD then
          (if \<not> isPinching s2
           then Some (Pinch, s2\<lparr> isPinching := True,
                                  basePinchDistance := cameraOrbit_radius e \<rparr>)
           else Some (Pinch, s2))
        else
          (let s3 = s2\<lparr> isPinching := False \<rparr>
           in if \<not> thumbExtended \<and> \<not> indexExtended \<and> \<not> middleExtended
                 \<and> \<not> ringExtended \<and> \<not> pinkyExtended
              then Some (Fist, s3)
              else if indexExtended \<and> \<not> middleExtended \<and> \<not> ringExtended \<and> \<not> pinkyExtended
              then Some (Point, s3)
              else if thumbExtended \<and> indexExtended \<and> middleExtended
                      \<and> ringExtended \<and> pinkyExtended
              then Some (Palm, s3)
              else Some (Rotate, s3))
   }"

text \<open>
  The label as the specification words it, from the thumb-tip to index-tip distance and the
  five finger states: pinch first, then fist, point, palm, and rotate for all the rest.
\<close>

definition GestureLabel_spec :: "real \<Rightarrow> bool \<Rightarrow> bool \<Rightarrow> bool \<Rightarrow> bool \<Rightarrow> bool \<Rightarrow> gesture" where
  "GestureLabel_spec d thumb index middle ring pinky =
     (if d < 0.08 then Pinch
      else if \<not> thumb \<and> \<not> index \<and> \<not> middle \<and> \<not> ring \<and> \<not> pinky then Fist
      else if index \<and> \<not> middle \<and> \<not> ring \<and> \<not> pinky then Point
      else if thumb \<and> index \<and> middle \<and> ring \<and> pinky then Palm
      else Rotate)"

subsection \<open>The gesture handlers\<close>

definition handleRotation :: "controller \<Rightarrow> effect list" where
  "handleRotation s =
     (let deltaTheta = v_x (handVelocity s) * rotationSensitivity s;
          deltaPhi = v_y (handVelocity s) * rotationSensitivity s
      in [AdjustRotation (- deltaTheta) deltaPhi])"

definition handlePinch :: "controller \<Rightarrow> point list \<Rightarrow> effect list option" where
  "handlePinch s landmarks = do {
     thumbTip \<leftarrow> lm_at landmarks THUMB_TIP;
     indexTip \<leftarrow> lm_at landmarks INDEX_TIP;
     let currentDistance = distance thumbTip indexTip;
         deltaDistance = currentDistance - previousPinchDistance s
     in Some [AdjustZoom (- deltaDistance * zoomSensitivity s)]
   }"

definition handlePoint :: "controller \<Rightarrow> env \<Rightarrow> point list \<Rightarrow> (controller \<times> effect list) option" where
  "handlePoint s e landmarks = do {
     indexTip \<leftarrow> lm_at landmarks INDEX_TIP;
     let screenX = (1 - p_x indexTip) * innerWidth e;
         screenY = p_y indexTip * innerHeight e;
         planet = getPlanetAtScreenPosition e screenX screenY
     in if truthy planet then
          (let (s1, fx1) =
                 (if hoveredPlanet s \<noteq> planet
                  then (s\<lparr> hoveredPlanet := planet, hoverStartTime := now_hoverStart e \<rparr>,
                        [HighlightPlanet planet])
                  else (s, []));
               s2 = s1\<lparr> hoverDuration := now_hoverDuration e - hoverStartTime s1 \<rparr>
           in if hoverDuration s2 > 1500 \<and> selectedPlanet s2 \<noteq> planet
              then Some (s2\<lparr> selectedPlanet := planet \<rparr>,
                         fx1 @ [SelectPlanet planet, FocusOnPlanet planet,
                                Emit (PlanetSelected planet)])
              else Some (s2, fx1))
        else
          (if truthy (hoveredPlanet s)
           then Some (s\<lparr> hoveredPlanet := None \<rparr>, [HighlightPlanet None])
           else Some (s, []))
   }"

definition handleFist :: "controller \<Rightarrow> controller \<times> effect list" where
  "handleFist s =
     (if gestureDuration s > 500 \<and> gestureDuration s < 700 then
        (if truthy (selectedPlanet s) then
           (if followingPlanet s = selectedPlanet s
            then (s\<lparr> followingPlanet := None \<rparr>,
                  [StopFollowing, Emit (PlanetFollowing None)])
            else (s\<lparr> followingPlanet := selectedPlanet s \<rparr>,
                  [FollowPlanet (selectedPlanet s), Emit (PlanetFollowing (selectedPlanet s))]))
         else (s, []))
      else (s, []))"

definition handlePalm :: "controller \<Rightarrow> controller \<times> effect list" where
  "handlePalm s =
     (if gestureDuration s > 1000 \<and> gestureDuration s < 1200
      then (s\<lparr> selectedPlanet := None, followingPlanet := None \<rparr>,
            [ResetView, Emit CameraReset, Emit (PlanetFollowing None)])
      else (s, []))"

fun handleGesture :: "controller \<Rightarrow> env \<Rightarrow> point list \<Rightarrow> gesture \<Rightarrow> (controller \<times> effect list) option" where
  "handleGesture s e landmarks Rotate = Some (s, handleRotation s)"
| "handleGesture s e landmarks Pinch = map_option (Pair s) (handlePinch s landmarks)"
| "handleGesture s e landmarks Point = handlePoint s e landmarks"
| "handleGesture s e landmarks Fist = Some (handleFist s)"
| "handleGesture s e landmarks Palm = Some (handlePalm s)"

subsection \<open>The public operations\<close>

text \<open>
  \<open>processHand(landmarks)\<close>; \<open>None\<close> is a \<open>null\<close> or missing argument. A throw keeps the
  assignments made before it. A label is a non-empty string, so \<open>if (gesture)\<close> always holds
  and every change of gesture is emitted.
\<close>

fun processHand :: "controller \<Rightarrow> env \<Rightarrow> point list option \<Rightarrow> outcome \<times> controller \<times> effect list" where
  "processHand s e None = (Returned, s, [])"
| "processHand s e (Some landmarks) =
     (let s1 = s\<lparr> previousHandPosition := handPosition s \<rparr>
      in case getPalmCenter landmarks of
           None \<Rightarrow> (TypeError, s1, [])
         | Some c \<Rightarrow>
            (let s2 = s1\<lparr> handPosition := c \<rparr>;
                 s3 = s2\<lparr> handVelocity :=
                          \<lparr> v_x = v_x (handPosition s2) - v_x (previousHandPosition s2),
                            v_y = v_y (handPosition s2) - v_y (previousHandPosition s2) \<rparr> \<rparr>
             in case detectGesture s3 e landmarks of
                  None \<Rightarrow> (TypeError, s3, [])
                | Some (gesture, s4) \<Rightarrow>
                   (let (s5, fx1) =
                          (if Some gesture \<noteq> currentGesture s4
                           then (s4\<lparr> previousGesture := currentGesture s4,
                                     currentGesture := Some gesture,
                                     gestureStartTime := now_gestureStart e \<rparr>,
                                 [Emit (GestureEvent gesture)])
                           else (s4, []));
                        s6 = s5\<lparr> gestureDuration := now_gestureDuration e - gestureStartTime s5 \<rparr>
                    in case handleGesture s6 e landmarks gesture of
                         None \<Rightarrow> (TypeError, s6, fx1)
                       | Some (s7, fx2) \<Rightarrow> (Returned, s7, fx1 @ fx2))))"

definition onHandLost :: "controller \<Rightarrow> controller \<times> effect list" where
  "onHandLost s =
     (let s1 = s\<lparr> currentGesture := None, isPinching := False \<rparr>
      in if truthy (hoveredPlanet s1)
         then (s1\<lparr> hoveredPlanet := None \<rparr>, [HighlightPlanet None])
         else (s1, []))"

definition update :: "controller \<Rightarrow> controller \<times> effect list" where
  "update s = (s, [])"

definition manualRotate :: "controller \<Rightarrow> real \<Rightarrow> real \<Rightarrow> controller \<times> effect list" where
  "manualRotate s deltaTheta deltaPhi = (s, [AdjustRotation deltaTheta deltaPhi])"

definition manualZoom :: "controller \<Rightarrow> real \<Rightarrow> controller \<times> effect list" where
  "manualZoom s delta = (s, [AdjustZoom delta])"

definition manualSelectPlanet :: "controller \<Rightarrow> pid \<Rightarrow> controller \<times> effect list" where
  "manualSelectPlanet s planetName =
     (s\<lparr> selectedPlanet := planetName \<rparr>,
      [SelectPlanet planetName, FocusOnPlanet planetName, Emit (PlanetSelected planetName)])"

definition manualFollowPlanet :: "controller \<Rightarrow> pid \<Rightarrow> controller \<times> effect list" where
  "manualFollowPlanet s planetName =
     (s\<lparr> followingPlanet := planetName \<rparr>,
      [FollowPlanet planetName, Emit (PlanetFollowing planetName)])"

definition manualReset :: "controller \<Rightarrow> controller \<times> effect list" where
  "manualReset s =
     (s\<lparr> selectedPlanet := None, followingPlanet := None \<rparr>,
      [ResetView, Emit CameraReset, Emit (PlanetFollowing None)])"

subsection \<open>Sequences of operations\<close>

text \<open>The public operations, as the host calls them, and what one of them does.\<close>

datatype op =
    ProcessHand env "point list option"
  | OnHandLost
  | Update
  | ManualRotate real real
  | ManualZoom real
  | ManualSelectPlanet pid
  | ManualFollowPlanet pid
  | ManualReset

fun step :: "controller \<Rightarrow> op \<Rightarrow> outcome \<times> controller \<times> effect list" where
  "step s (ProcessHand e landmarks) = processHand s e landmarks"
| "step s OnHandLost = (Returned, onHandLost s)"
| "step s Update = (Returned, update s)"
| "step s (ManualRotate deltaTheta deltaPhi) = (Returned, manualRotate s deltaTheta deltaPhi)"
| "step s (ManualZoom delta) = (Returned, manualZoom s delta)"
| "step s (ManualSelectPlanet planetName) = (Returned, manualSelectPlanet s planetName)"
| "step s (ManualFollowPlanet planetName) = (Returned, manualFollowPlanet s planetName)"
| "step s ManualReset = (Returned, manualReset s)"

text \<open>The controller a sequence ends in.\<close>

fun final :: "controller \<Rightarrow> op list \<Rightarrow> controller" where
  "final s [] = s"
| "final s (x # xs) = final (fst (snd (step s x))) xs"

text \<open>
  The results of a sequence of operations, one per operation. An operation that throws
  leaves the controller as it is at the throw, and the next operation starts from there.
\<close>

fun run :: "controller \<Rightarrow> op list \<Rightarrow> (outcome \<times> controller \<times> effect list) list" where
  "run s [] = []"
| "run s (x # xs) = step s x # run (final s [x]) xs"

text \<open>The controllers a sequence goes through, the first one included.\<close>

fun visited :: "controller \<Rightarrow> op list \<Rightarrow> controller list" where
  "visited s [] = [s]"
| "visited s (x # xs) = s # visited (final s [x]) xs"

text \<open>The effects of a sequence, in order.\<close>

definition effects :: "controller \<Rightarrow> op list \<Rightarrow> effect list" where
  "effects s xs = concat (map (\<lambda>r. snd (snd r)) (run s xs))"

text \<open>A sequence of frames as a sequence of operations.\<close>

definition frameOps :: "(env \<times> point list) list \<Rightarrow> op list" where
  "frameOps fs = map (\<lambda>(e, lm). ProcessHand e (Some lm)) fs"

text \<open>
  The hit target of a frame that has an index fingertip: what the scene answers for the
  screen position \<open>handlePoint\<close> computes from it.
\<close>

definition hitTarget :: "env \<Rightarrow> point list \<Rightarrow> pid" where
  "hitTarget e landmarks =
     getPlanetAtScreenPosition e ((1 - p_x (landmarks ! INDEX_TIP)) * innerWidth e)
                                 (p_y (landmarks ! INDEX_TIP) * innerHeight e)"

fun isPlanetSelected :: "effect \<Rightarrow> bool" where
  "isPlanetSelected (Emit (PlanetSelected p)) = True"
| "isPlanetSelected fx = False"

fun isHighlight :: "effect \<Rightarrow> bool" where
  "isHighlight (HighlightPlanet p) = True"
| "isHighlight (SelectPlanet p) = True"
| "isHighlight fx = False"

text \<open>
  The controller as \<open>processHand\<close> hands it to \<open>handleGesture\<close>, from the palm centre \<open>c\<close>,
  the pinch distance \<open>d\<close> and the label \<open>g\<close> of the frame.
\<close>

definition beforeHandler :: "controller \<Rightarrow> env \<Rightarrow> vec2 \<Rightarrow> real \<Rightarrow> gesture \<Rightarrow> controller" where
  "beforeHandler s e c d g =
     s\<lparr> previousHandPosition := handPosition s,
        handPosition := c,
        handVelocity := \<lparr> v_x = v_x c - v_x (handPosition s),
                          v_y = v_y c - v_y (handPosition s) \<rparr>,
        previousPinchDistance := pinchDistance s,
        pinchDistance := d,
        isPinching := (d < PINCH_THRESHOLD),
        basePinchDistance := (if d < PINCH_THRESHOLD \<and> \<not> isPinching s
                              then cameraOrbit_radius e else basePinchDistance s),
        previousGesture := (if Some g \<noteq> currentGesture s
                            then currentGesture s else previousGesture s),
        currentGesture := Some g,
        gestureStartTime := (if Some g \<noteq> currentGesture s
                             then now_gestureStart e else gestureStartTime s),
        gestureDuration := now_gestureDuration e -
                             (if Some g \<noteq> currentGesture s
                              then now_gestureStart e else gestureStartTime s) \<rparr>"

subsection \<open>Sample inputs\<close>

text \<open>
  Concrete frames of 21 landmarks and concrete inputs, to run the controller on. All
  landmarks of \<open>sampleHand x\<close> sit at \<open>(x, 0.5)\<close> and have no \<open>z\<close>; the frames below move
  single fingertips.
\<close>

definition pt :: "real \<Rightarrow> real \<Rightarrow> point" where
  "pt x y = \<lparr> p_x = x, p_y = y, p_z = None \<rparr>"

definition sampleHand :: "real \<Rightarrow> point list" where
  "sampleHand x = replicate 21 (pt x 0.5)"

text \<open>The index tip at distance \<open>d\<close> from the thumb tip, no finger extended.\<close>

definition closedHand :: "real \<Rightarrow> point list" where
  "closedHand d = (sampleHand 0.5)[INDEX_TIP := pt (0.5 + d) 0.5]"

text \<open>Only the index finger extended.\<close>

definition pointingHand :: "point list" where
  "pointingHand = (sampleHand 0.5)[INDEX_TIP := pt 0.5 0.3]"

text \<open>Index and middle finger extended, the hand at \<open>x\<close>.\<close>

definition twoFingerHand :: "real \<Rightarrow> point list" where
  "twoFingerHand x = (sampleHand x)[INDEX_TIP := pt x 0.3, MIDDLE_TIP := pt x 0.3]"

text \<open>Inputs at time \<open>t\<close>, with a scene whose hit test answers \<open>target\<close> everywhere.\<close>

definition sampleEnv :: "int \<Rightarrow> pid \<Rightarrow> env" where
  "sampleEnv t target =
     \<lparr> now_gestureStart = t, now_gestureDuration = t,
       now_hoverStart = t, now_hoverDuration = t,
       cameraOrbit_radius = 80,
       getPlanetAtScreenPosition = (\<lambda>x y. target),
       innerWidth = 1920, innerHeight = 1080 \<rparr>"

text \<open>Frames that point at mars, at the given times.\<close>

definition marsFrames :: "int list \<Rightarrow> (env \<times> point list) list" where
  "marsFrames ts = map (\<lambda>t. (sampleEnv t (Some ''mars''), pointingHand)) ts"

section \<open>Properties\<close>

subsection \<open>The classifier and the frame step, unfolded\<close>

declare processHand.simps(2) [simp del]

lemma lm_at_eq_Some: "lm_at lm i = Some p \<Longrightarrow> p = lm ! i"
  by (simp add: lm_at_def split: if_splits)

lemma lm_at_frame: "20 < length lm \<Longrightarrow> i \<le> 20 \<Longrightarrow> lm_at lm i = Some (lm ! i)"
  by (simp add: lm_at_def)

lemma if_Some_fst: "(if b then Some (x, s) else Some (y, s)) = Some (if b then x else y, s)"
  by simp

lemma detectGesture_eq:
  assumes "isThumbExtended lm = Some th"
    and "isFingerExtended lm Index = Some ix"
    and "isFingerExtended lm Middle = Some mi"
    and "isFingerExtended lm Ring = Some ri"
    and "isFingerExtended lm Pinky = Some pk"
    and "lm_at lm THUMB_TIP = Some tt"
    and "lm_at lm INDEX_TIP = Some it"
  shows "detectGesture s e lm =
    Some (GestureLabel_spec (distance (lm ! THUMB_TIP) (lm ! INDEX_TIP)) th ix mi ri pk,
          s\<lparr> previousPinchDistance := pinchDistance s,
             pinchDistance := distance (lm ! THUMB_TIP) (lm ! INDEX_TIP),
             isPinching := (distance (lm ! THUMB_TIP) (lm ! INDEX_TIP) < PINCH_THRESHOLD),
             basePinchDistance :=
               (if distance (lm ! THUMB_TIP) (lm ! INDEX_TIP) < PINCH_THRESHOLD \<and> \<not> isPinching s
                then cameraOrbit_radius e else basePinchDistance s) \<rparr>)"
proof -
  have tt: "tt = lm ! THUMB_TIP" and it: "it = lm ! INDEX_TIP"
    using assms(6,7) by (simp_all add: lm_at_eq_Some)
  define d where "d = distance (lm ! THUMB_TIP) (lm ! INDEX_TIP)"
  define s2 where "s2 = s\<lparr> previousPinchDistance := pinchDistance s, pinchDistance := d \<rparr>"
  have unfold: "detectGesture s e lm =
     (if d < PINCH_THRESHOLD then
          (if \<not> isPinching s
           then Some (Pinch, s2\<lparr> isPinching := True,
                                  basePinchDistance := cameraOrbit_radius e \<rparr>)
           else Some (Pinch, s2))
        else Some (if \<not> th \<and> \<not> ix \<and> \<not> mi \<and> \<not> ri \<and> \<not> pk then Fist
              else if ix \<and> \<not> mi \<and> \<not> ri \<and> \<not> pk then Point
              else if th \<and> ix \<and> mi \<and> ri \<and> pk then Palm
              else Rotate, s2\<lparr> isPinching := False \<rparr>))"
    unfolding detectGesture_def assms tt it d_def s2_def
    by (simp add: Let_def if_Some_fst)
  show ?thesis
  proof (cases "d < PINCH_THRESHOLD")
    case True
    then have "d < 0.08" by (simp add: PINCH_THRESHOLD_def)
    then show ?thesis
      unfolding unfold d_def [symmetric] GestureLabel_spec_def
      using True by (cases "isPinching s") (simp_all add: s2_def)
  next
    case False
    then have "\<not> d < 0.08" by (simp add: PINCH_THRESHOLD_def)
    then show ?thesis
      unfolding unfold d_def [symmetric] GestureLabel_spec_def
      using False by (simp add: s2_def)
  qed
qed

lemma detectGesture_SomeD:
  assumes "detectGesture s e lm = Some (g, s')"
  shows "\<exists>th ix mi ri pk tt it.
           isThumbExtended lm = Some th \<and> isFingerExtended lm Index = Some ix
         \<and> isFingerExtended lm Middle = Some mi \<and> isFingerExtended lm Ring = Some ri
         \<and> isFingerExtended lm Pinky = Some pk
         \<and> lm_at lm THUMB_TIP = Some tt \<and> lm_at lm INDEX_TIP = Some it"
  using assms unfolding detectGesture_def
  by (simp only: bind_eq_Some_conv) blast

lemma detectGesture_state:
  assumes "detectGesture s e lm = Some (g, s')"
  shows "s' = s\<lparr> previousPinchDistance := pinchDistance s,
                 pinchDistance := distance (lm ! THUMB_TIP) (lm ! INDEX_TIP),
                 isPinching := (distance (lm ! THUMB_TIP) (lm ! INDEX_TIP) < PINCH_THRESHOLD),
                 basePinchDistance :=
                   (if distance (lm ! THUMB_TIP) (lm ! INDEX_TIP) < PINCH_THRESHOLD \<and> \<not> isPinching s
                    then cameraOrbit_radius e else basePinchDistance s) \<rparr>"
proof -
  from detectGesture_SomeD [OF assms] obtain th ix mi ri pk tt it where
    f: "isThumbExtended lm = Some th" "isFingerExtended lm Index = Some ix"
       "isFingerExtended lm Middle = Some mi" "isFingerExtended lm Ring = Some ri"
       "isFingerExtended lm Pinky = Some pk"
       "lm_at lm THUMB_TIP = Some tt" "lm_at lm INDEX_TIP = Some it"
    by blast
  show ?thesis
    using assms unfolding detectGesture_eq [OF f] by simp
qed

lemma detectGesture_label:
  assumes "detectGesture s e lm = Some (g, s')"
  shows "\<exists>t'. detectGesture t e2 lm = Some (g, t')"
proof -
  from detectGesture_SomeD [OF assms] obtain th ix mi ri pk tt it where
    f: "isThumbExtended lm = Some th" "isFingerExtended lm Index = Some ix"
       "isFingerExtended lm Middle = Some mi" "isFingerExtended lm Ring = Some ri"
       "isFingerExtended lm Pinky = Some pk"
       "lm_at lm THUMB_TIP = Some tt" "lm_at lm INDEX_TIP = Some it"
    by blast
  have "g = GestureLabel_spec (distance (lm ! THUMB_TIP) (lm ! INDEX_TIP)) th ix mi ri pk"
    using assms unfolding detectGesture_eq [OF f] by simp
  then show ?thesis
    unfolding detectGesture_eq [OF f] by simp
qed

lemma handlePoint_None: "lm_at lm INDEX_TIP = None \<Longrightarrow> handlePoint s e lm = None"
  by (simp add: handlePoint_def)

lemma handlePoint_miss:
  assumes "lm_at lm INDEX_TIP = Some it" and "\<not> truthy (hitTarget e lm)"
  shows "handlePoint s e lm =
     Some (if truthy (hoveredPlanet s)
           then (s\<lparr> hoveredPlanet := None \<rparr>, [HighlightPlanet None]) else (s, []))"
proof -
  have it: "it = lm ! INDEX_TIP" using assms(1) by (rule lm_at_eq_Some)
  show ?thesis
    using assms(2) unfolding handlePoint_def assms(1) it hitTarget_def
    by (simp add: Let_def)
qed

lemma handlePoint_hit:
  assumes "lm_at lm INDEX_TIP = Some it" and "truthy (hitTarget e lm)"
  shows "handlePoint s e lm =
     Some (s\<lparr> hoveredPlanet := hitTarget e lm,
               hoverStartTime := (if hoveredPlanet s \<noteq> hitTarget e lm
                                  then now_hoverStart e else hoverStartTime s),
               hoverDuration := now_hoverDuration e -
                                  (if hoveredPlanet s \<noteq> hitTarget e lm
                                   then now_hoverStart e else hoverStartTime s),
               selectedPlanet :=
                 (if now_hoverDuration e -
                       (if hoveredPlanet s \<noteq> hitTarget e lm
                        then now_hoverStart e else hoverStartTime s) > 1500
                  then hitTarget e lm else selectedPlanet s) \<rparr>,
           (if hoveredPlanet s \<noteq> hitTarget e lm then [HighlightPlanet (hitTarget e lm)] else [])
           @ (if now_hoverDuration e -
                   (if hoveredPlanet s \<noteq> hitTarget e lm
                    then now_hoverStart e else hoverStartTime s) > 1500
                 \<and> selectedPlanet s \<noteq> hitTarget e lm
              then [SelectPlanet (hitTarget e lm), FocusOnPlanet (hitTarget e lm),
                    Emit (PlanetSelected (hitTarget e lm))]
              else []))"
proof -
  have it: "it = lm ! INDEX_TIP" using assms(1) by (rule lm_at_eq_Some)
  define planet where "planet = hitTarget e lm"
  have un: "handlePoint s e lm =
     (let (s1, fx1) =
                 (if hoveredPlanet s \<noteq> planet
                  then (s\<lparr> hoveredPlanet := planet, hoverStartTime := now_hoverStart e \<rparr>,
                        [HighlightPlanet planet])
                  else (s, []));
               s2 = s1\<lparr> hoverDuration := now_hoverDuration e - hoverStartTime s1 \<rparr>
           in if hoverDuration s2 > 1500 \<and> selectedPlanet s2 \<noteq> planet
              then Some (s2\<lparr> selectedPlanet := planet \<rparr>,
                         fx1 @ [SelectPlanet planet, FocusOnPlanet planet,
                                Emit (PlanetSelected planet)])
              else Some (s2, fx1))"
    using assms(2) unfolding handlePoint_def assms(1) it planet_def hitTarget_def
    by (simp add: Let_def)
  show ?thesis
  proof (cases "hoveredPlanet s \<noteq> planet")
    case True
    then show ?thesis
      unfolding planet_def [symmetric] un
      by (cases "now_hoverDuration e - now_hoverStart e > 1500";
          cases "selectedPlanet s \<noteq> planet") (simp_all add: Let_def)
  next
    case False
    then have h: "planet = hoveredPlanet s" by simp
    show ?thesis
      unfolding planet_def [symmetric] un
      by (cases "now_hoverDuration e - hoverStartTime s > 1500";
          cases "selectedPlanet s \<noteq> planet") (simp_all add: Let_def h)
  qed
qed

lemma handleGesture_currentGesture:
  assumes "handleGesture s e lm g = Some (s', fx)"
  shows "currentGesture s' = currentGesture s"
proof (cases g)
  case Rotate
  then show ?thesis using assms by auto
next
  case Pinch
  then show ?thesis using assms by auto
next
  case Point
  show ?thesis
  proof (cases "lm_at lm INDEX_TIP")
    case None
    then show ?thesis using assms Point by (simp add: handlePoint_None)
  next
    case (Some it)
    show ?thesis
    proof (cases "truthy (hitTarget e lm)")
      case True
      then show ?thesis using assms Point by (auto simp: handlePoint_hit [OF Some])
    next
      case False
      then show ?thesis
        using assms Point by (auto simp: handlePoint_miss [OF Some] split: if_splits)
    qed
  qed
next
  case Fist
  then show ?thesis using assms by (auto simp: handleFist_def split: if_splits)
next
  case Palm
  then show ?thesis using assms by (auto simp: handlePalm_def split: if_splits)
qed

lemma processHand_eq:
  assumes c: "getPalmCenter lm = Some c"
    and dg: "detectGesture t e2 lm = Some (g, t')"
  shows "processHand s e (Some lm) =
     (case handleGesture (beforeHandler s e c (distance (lm ! THUMB_TIP) (lm ! INDEX_TIP)) g) e lm g of
        None \<Rightarrow> (TypeError, beforeHandler s e c (distance (lm ! THUMB_TIP) (lm ! INDEX_TIP)) g,
                  if Some g \<noteq> currentGesture s then [Emit (GestureEvent g)] else [])
      | Some (s7, fx2) \<Rightarrow>
          (Returned, s7, (if Some g \<noteq> currentGesture s then [Emit (GestureEvent g)] else []) @ fx2))"
proof -
  define s3 where "s3 = s\<lparr> previousHandPosition := handPosition s, handPosition := c,
                 handVelocity := \<lparr> v_x = v_x c - v_x (handPosition s),
                          v_y = v_y c - v_y (handPosition s) \<rparr> \<rparr>"
  obtain s4 where dg3: "detectGesture s3 e lm = Some (g, s4)"
    using detectGesture_label [OF dg] by blast
  note s4 = detectGesture_state [OF dg3]
  define s6 where "s6 = beforeHandler s e c (distance (lm ! THUMB_TIP) (lm ! INDEX_TIP)) g"
  have cur: "currentGesture s4 = currentGesture s"
    by (simp add: s4 s3_def)
  have s6: "(if Some g \<noteq> currentGesture s
             then s4\<lparr> previousGesture := currentGesture s4, currentGesture := Some g,
                       gestureStartTime := now_gestureStart e,
                       gestureDuration := now_gestureDuration e - now_gestureStart e \<rparr>
             else s4\<lparr> gestureDuration := now_gestureDuration e - gestureStartTime s4 \<rparr>) = s6"
    by (auto simp: s6_def beforeHandler_def s4 s3_def)
  show ?thesis
    unfolding s6_def [symmetric]
    using c dg3 cur s6
    by (cases "handleGesture s6 e lm g"; cases "Some g \<noteq> currentGesture s")
       (auto simp: processHand.simps(2) Let_def s3_def [symmetric] split: if_splits)
qed

lemma getPalmCenter_Some: "20 < length lm \<Longrightarrow> \<exists>c. getPalmCenter lm = Some c"
  by (simp add: getPalmCenter_def lm_at_frame)

lemma isThumbExtended_Some: "20 < length lm \<Longrightarrow> \<exists>b. isThumbExtended lm = Some b"
  by (simp add: isThumbExtended_def lm_at_frame Let_def)

lemma isFingerExtended_Some: "20 < length lm \<Longrightarrow> \<exists>b. isFingerExtended lm f = Some b"
  by (cases f) (simp_all add: isFingerExtended_def lm_at_frame Let_def)

lemma handleGesture_Some:
  assumes "20 < length lm"
  shows "\<exists>s' fx. handleGesture s e lm g = Some (s', fx)"
proof (cases g)
  case Pinch
  then show ?thesis by (simp add: handlePinch_def lm_at_frame [OF assms] Let_def)
next
  case Point
  show ?thesis
    unfolding Point
    by (cases "truthy (hitTarget e lm)")
       (simp_all add: handlePoint_hit [OF lm_at_frame [OF assms]]
          handlePoint_miss [OF lm_at_frame [OF assms]])
qed simp_all

lemma detectGesture_frame:
  assumes "20 < length lm"
  shows "\<exists>thumb index middle ring pinky s'.
           isThumbExtended lm = Some thumb
         \<and> isFingerExtended lm Index = Some index
         \<and> isFingerExtended lm Middle = Some middle
         \<and> isFingerExtended lm Ring = Some ring
         \<and> isFingerExtended lm Pinky = Some pinky
         \<and> detectGesture s e lm =
             Some (GestureLabel_spec (distance (lm ! THUMB_TIP) (lm ! INDEX_TIP))
                     thumb index middle ring pinky, s')"
proof -
  obtain th where th: "isThumbExtended lm = Some th"
    using isThumbExtended_Some [OF assms] by blast
  obtain ix where ix: "isFingerExtended lm Index = Some ix"
    using isFingerExtended_Some [OF assms] by blast
  obtain mi where mi: "isFingerExtended lm Middle = Some mi"
    using isFingerExtended_Some [OF assms] by blast
  obtain ri where ri: "isFingerExtended lm Ring = Some ri"
    using isFingerExtended_Some [OF assms] by blast
  obtain pk where pk: "isFingerExtended lm Pinky = Some pk"
    using isFingerExtended_Some [OF assms] by blast
  have tt: "lm_at lm THUMB_TIP = Some (lm ! THUMB_TIP)"
    and it: "lm_at lm INDEX_TIP = Some (lm ! INDEX_TIP)"
    by (simp_all add: lm_at_frame [OF assms])
  show ?thesis
    using detectGesture_eq [OF th ix mi ri pk tt it, of s e] th ix mi ri pk by blast
qed

lemma processHand_step:
  assumes "getPalmCenter lm = Some c"
    and "detectGesture t e2 lm = Some (g, t')"
    and "handleGesture (beforeHandler s e c (distance (lm ! THUMB_TIP) (lm ! INDEX_TIP)) g) e lm g
           = Some (s7, fx2)"
  shows "processHand s e (Some lm) =
           (Returned, s7, (if Some g \<noteq> currentGesture s then [Emit (GestureEvent g)] else []) @ fx2)"
  unfolding processHand_eq [OF assms(1,2)] assms(3) by simp

lemma processHand_ReturnedD:
  assumes "processHand s e (Some lm) = (Returned, s', fx)"
  shows "\<exists>c g fx2. getPalmCenter lm = Some c
           \<and> (\<forall>t e2. \<exists>t'. detectGesture t e2 lm = Some (g, t'))
           \<and> handleGesture (beforeHandler s e c (distance (lm ! THUMB_TIP) (lm ! INDEX_TIP)) g) e lm g
               = Some (s', fx2)
           \<and> fx = (if Some g \<noteq> currentGesture s then [Emit (GestureEvent g)] else []) @ fx2
           \<and> currentGesture s' = Some g"
proof -
  obtain c where c: "getPalmCenter lm = Some c"
    using assms by (cases "getPalmCenter lm") (simp_all add: processHand.simps(2) Let_def)
  define s3 where "s3 = s\<lparr> previousHandPosition := handPosition s, handPosition := c,
                 handVelocity := \<lparr> v_x = v_x c - v_x (handPosition s),
                          v_y = v_y c - v_y (handPosition s) \<rparr> \<rparr>"
  obtain g s4 where dg: "detectGesture s3 e lm = Some (g, s4)"
    using assms c
    by (cases "detectGesture s3 e lm") (auto simp: processHand.simps(2) Let_def s3_def)
  define B where "B = beforeHandler s e c (distance (lm ! THUMB_TIP) (lm ! INDEX_TIP)) g"
  have eq: "processHand s e (Some lm) =
     (case handleGesture B e lm g of
        None \<Rightarrow> (TypeError, B, if Some g \<noteq> currentGesture s then [Emit (GestureEvent g)] else [])
      | Some (s7, fx2) \<Rightarrow>
          (Returned, s7, (if Some g \<noteq> currentGesture s then [Emit (GestureEvent g)] else []) @ fx2))"
    unfolding B_def by (rule processHand_eq [OF c dg])
  obtain fx2 where h: "handleGesture B e lm g = Some (s', fx2)"
    and fx: "fx = (if Some g \<noteq> currentGesture s then [Emit (GestureEvent g)] else []) @ fx2"
    using assms unfolding eq by (cases "handleGesture B e lm g") auto
  have "currentGesture s' = currentGesture B"
    using h by (rule handleGesture_currentGesture)
  then have cur: "currentGesture s' = Some g"
    by (simp add: B_def beforeHandler_def)
  have lab: "\<forall>t e2. \<exists>t'. detectGesture t e2 lm = Some (g, t')"
    using detectGesture_label [OF dg] by blast
  show ?thesis using c lab h fx cur unfolding B_def by blast
qed

lemma processHand_total:
  assumes "20 < length lm"
  shows "\<exists>s' fx. processHand s e (Some lm) = (Returned, s', fx)"
proof -
  obtain c where c: "getPalmCenter lm = Some c"
    using getPalmCenter_Some [OF assms] by blast
  obtain g t' where dg: "detectGesture s e lm = Some (g, t')"
    using detectGesture_frame [OF assms, of s e] by blast
  obtain s7 fx2 where
    "handleGesture (beforeHandler s e c (distance (lm ! THUMB_TIP) (lm ! INDEX_TIP)) g) e lm g
       = Some (s7, fx2)"
    using handleGesture_Some [OF assms] by blast
  from processHand_step [OF c dg this] show ?thesis by blast
qed

lemma processHand_TypeErrorD:
  assumes "processHand s e lmo = (TypeError, s', fx)"
  shows "hoveredPlanet s' = hoveredPlanet s \<and> selectedPlanet s' = selectedPlanet s
       \<and> followingPlanet s' = followingPlanet s"
proof (cases lmo)
  case None
  then show ?thesis using assms by simp
next
  case (Some lm)
  show ?thesis
  proof (cases "getPalmCenter lm")
    case None
    then show ?thesis using assms Some by (auto simp: processHand.simps(2) Let_def)
  next
    case c: (Some c)
    define s3 where "s3 = s\<lparr> previousHandPosition := handPosition s, handPosition := c,
                 handVelocity := \<lparr> v_x = v_x c - v_x (handPosition s),
                          v_y = v_y c - v_y (handPosition s) \<rparr> \<rparr>"
    show ?thesis
    proof (cases "detectGesture s3 e lm")
      case None
      then show ?thesis
        using assms Some c by (auto simp: processHand.simps(2) Let_def s3_def)
    next
      case dg: (Some a)
      obtain g s4 where a: "a = (g, s4)" by (cases a)
      define B where "B = beforeHandler s e c (distance (lm ! THUMB_TIP) (lm ! INDEX_TIP)) g"
      have eq: "processHand s e (Some lm) =
         (case handleGesture B e lm g of
            None \<Rightarrow> (TypeError, B, if Some g \<noteq> currentGesture s then [Emit (GestureEvent g)] else [])
          | Some (s7, fx2) \<Rightarrow>
              (Returned, s7, (if Some g \<noteq> currentGesture s then [Emit (GestureEvent g)] else []) @ fx2))"
        unfolding B_def by (rule processHand_eq [OF c dg [unfolded a]])
      have "s' = B"
        using assms unfolding Some eq by (cases "handleGesture B e lm g") auto
      then show ?thesis by (simp add: B_def beforeHandler_def)
    qed
  qed
qed

subsection \<open>The sample inputs, evaluated\<close>

lemma distance_pt_x: "distance (pt a b) (pt c b) = \<bar>a - c\<bar>"
  by (simp add: distance_def pt_def z_or_0_def)

lemma distance_pt_y: "distance (pt a b) (pt a d) = \<bar>b - d\<bar>"
  by (simp add: distance_def pt_def z_or_0_def)

lemma p_y_pt: "p_y (pt a b) = b"
  by (simp add: pt_def)

lemma p_x_pt: "p_x (pt a b) = a"
  by (simp add: pt_def)

lemmas sample_frames = closedHand_def pointingHand_def twoFingerHand_def sampleHand_def

lemmas eval_frame = lm_at_def getPalmCenter_def isThumbExtended_def isFingerExtended_def
  distance_pt_x distance_pt_y p_y_pt p_x_pt Let_def

lemma closedHand_palm: "getPalmCenter (closedHand d) = Some \<lparr>v_x = 0.5, v_y = 0.5\<rparr>"
  by (simp add: sample_frames eval_frame)

lemma closedHand_distance:
  "distance (closedHand d ! THUMB_TIP) (closedHand d ! INDEX_TIP) = \<bar>d\<bar>"
  by (simp add: sample_frames eval_frame)

lemma closedHand_label:
  "\<exists>t'. detectGesture t e (closedHand d) = Some (if \<bar>d\<bar> < 0.08 then Pinch else Fist, t')"
proof -
  have "detectGesture t e (closedHand d) =
     Some (GestureLabel_spec (distance (closedHand d ! THUMB_TIP) (closedHand d ! INDEX_TIP))
             False False False False False,
           t\<lparr> previousPinchDistance := pinchDistance t,
             pinchDistance := distance (closedHand d ! THUMB_TIP) (closedHand d ! INDEX_TIP),
             isPinching := (distance (closedHand d ! THUMB_TIP) (closedHand d ! INDEX_TIP) < PINCH_THRESHOLD),
             basePinchDistance :=
               (if distance (closedHand d ! THUMB_TIP) (closedHand d ! INDEX_TIP) < PINCH_THRESHOLD \<and> \<not> isPinching t
                then cameraOrbit_radius e else basePinchDistance t) \<rparr>)"
    by (rule detectGesture_eq) (simp_all add: sample_frames eval_frame)
  then show ?thesis
    by (simp add: closedHand_distance GestureLabel_spec_def)
qed

lemma closedHand_fist_step:
  assumes "\<not> \<bar>d\<bar> < 0.08"
  shows "processHand s e (Some (closedHand d)) =
     (Returned, fst (handleFist (beforeHandler s e \<lparr>v_x = 0.5, v_y = 0.5\<rparr> \<bar>d\<bar> Fist)),
      (if Some Fist \<noteq> currentGesture s then [Emit (GestureEvent Fist)] else [])
      @ snd (handleFist (beforeHandler s e \<lparr>v_x = 0.5, v_y = 0.5\<rparr> \<bar>d\<bar> Fist)))"
proof -
  obtain t' where "detectGesture s e (closedHand d) = Some (Fist, t')"
    using closedHand_label [of s e d] assms by auto
  then show ?thesis
    by (rule processHand_step [OF closedHand_palm]) (simp add: closedHand_distance)
qed

lemma pointingHand_fingers:
  "isThumbExtended pointingHand = Some False"
  "isFingerExtended pointingHand Index = Some True"
  "isFingerExtended pointingHand Middle = Some False"
  "isFingerExtended pointingHand Ring = Some False"
  "isFingerExtended pointingHand Pinky = Some False"
  by (simp_all add: sample_frames eval_frame)

lemma pointingHand_distance:
  "distance (pointingHand ! THUMB_TIP) (pointingHand ! INDEX_TIP) = 0.2"
  by (simp add: sample_frames eval_frame)

lemma pointingHand_palm: "getPalmCenter pointingHand = Some \<lparr>v_x = 0.5, v_y = 0.5\<rparr>"
  by (simp add: sample_frames eval_frame)

lemma pointingHand_label: "\<exists>t'. detectGesture t e pointingHand = Some (Point, t')"
proof -
  have len: "20 < length pointingHand" by (simp add: sample_frames)
  from detectGesture_frame [OF len, of t e]
  show ?thesis
    by (auto simp: pointingHand_fingers pointingHand_distance GestureLabel_spec_def)
qed

lemma pointingHand_hitTarget: "hitTarget (sampleEnv t p) lm = p"
  by (simp add: hitTarget_def sampleEnv_def)

lemma pointingHand_hit_step:
  assumes "truthy p"
  shows "processHand s (sampleEnv t p) (Some pointingHand) =
     (Returned,
      s\<lparr> previousHandPosition := handPosition s,
         handPosition := \<lparr>v_x = 0.5, v_y = 0.5\<rparr>,
         handVelocity := \<lparr> v_x = 0.5 - v_x (handPosition s), v_y = 0.5 - v_y (handPosition s) \<rparr>,
         previousPinchDistance := pinchDistance s,
         pinchDistance := 0.2,
         isPinching := False,
         previousGesture := (if Some Point \<noteq> currentGesture s
                             then currentGesture s else previousGesture s),
         currentGesture := Some Point,
         gestureStartTime := (if Some Point \<noteq> currentGesture s then t else gestureStartTime s),
         gestureDuration := t - (if Some Point \<noteq> currentGesture s then t else gestureStartTime s),
         hoveredPlanet := p,
         hoverStartTime := (if hoveredPlanet s \<noteq> p then t else hoverStartTime s),
         hoverDuration := t - (if hoveredPlanet s \<noteq> p then t else hoverStartTime s),
         selectedPlanet :=
           (if t - (if hoveredPlanet s \<noteq> p then t else hoverStartTime s) > 1500
            then p else selectedPlanet s) \<rparr>,
      (if Some Point \<noteq> currentGesture s then [Emit (GestureEvent Point)] else [])
      @ (if hoveredPlanet s \<noteq> p then [HighlightPlanet p] else [])
      @ (if t - (if hoveredPlanet s \<noteq> p then t else hoverStartTime s) > 1500
            \<and> selectedPlanet s \<noteq> p
         then [SelectPlanet p, FocusOnPlanet p, Emit (PlanetSelected p)] else []))"
proof -
  have it: "lm_at pointingHand INDEX_TIP = Some (pointingHand ! INDEX_TIP)"
    by (rule lm_at_frame) (simp_all add: sample_frames)
  have e: "now_hoverStart (sampleEnv t p) = t" "now_hoverDuration (sampleEnv t p) = t"
    "now_gestureStart (sampleEnv t p) = t" "now_gestureDuration (sampleEnv t p) = t"
    by (simp_all add: sampleEnv_def)
  obtain t' where dg: "detectGesture s (sampleEnv t p) pointingHand = Some (Point, t')"
    using pointingHand_label by blast
  show ?thesis
    by (rule processHand_step [OF pointingHand_palm dg, THEN trans])
       (use assms in \<open>simp_all add: handlePoint_hit [OF it] pointingHand_hitTarget e
          pointingHand_distance beforeHandler_def PINCH_THRESHOLD_def\<close>)
qed

lemma sampleEnv_fields:
  "now_gestureStart (sampleEnv t p) = t" "now_gestureDuration (sampleEnv t p) = t"
  "now_hoverStart (sampleEnv t p) = t" "now_hoverDuration (sampleEnv t p) = t"
  "cameraOrbit_radius (sampleEnv t p) = 80"
  by (simp_all add: sampleEnv_def)

lemmas eval_run = closedHand_fist_step pointingHand_hit_step
  beforeHandler_def handleFist_def manualSelectPlanet_def manualFollowPlanet_def onHandLost_def
  init_def sampleEnv_fields truthy_def PINCH_THRESHOLD_def

subsection \<open>The hover target under the handlers\<close>

lemma handleGesture_hovered:
  assumes "handleGesture s e lm g = Some (s', fx)"
  shows "hoveredPlanet s' =
           (if g = Point
            then (if truthy (hitTarget e lm) then hitTarget e lm
                  else if truthy (hoveredPlanet s) then None else hoveredPlanet s)
            else hoveredPlanet s)"
    and "g \<noteq> Point \<Longrightarrow> filter isHighlight fx = []"
proof -
  have "hoveredPlanet s' =
           (if g = Point
            then (if truthy (hitTarget e lm) then hitTarget e lm
                  else if truthy (hoveredPlanet s) then None else hoveredPlanet s)
            else hoveredPlanet s) \<and> (g \<noteq> Point \<longrightarrow> filter isHighlight fx = [])"
  proof (cases g)
    case Rotate
    then show ?thesis using assms by (auto simp: handleRotation_def)
  next
    case Pinch
    then show ?thesis using assms by (auto simp: handlePinch_def bind_eq_Some_conv)
  next
    case Point
    show ?thesis
    proof (cases "lm_at lm INDEX_TIP")
      case None
      then show ?thesis using assms Point by (simp add: handlePoint_None)
    next
      case (Some it)
      show ?thesis
      proof (cases "truthy (hitTarget e lm)")
        case True
        then show ?thesis using assms Point by (auto simp: handlePoint_hit [OF Some])
      next
        case False
        then show ?thesis
          using assms Point by (auto simp: handlePoint_miss [OF Some] split: if_splits)
      qed
    qed
  next
    case Fist
    then show ?thesis using assms by (auto simp: handleFist_def split: if_splits)
  next
    case Palm
    then show ?thesis using assms by (auto simp: handlePalm_def split: if_splits)
  qed
  then show "hoveredPlanet s' =
           (if g = Point
            then (if truthy (hitTarget e lm) then hitTarget e lm
                  else if truthy (hoveredPlanet s) then None else hoveredPlanet s)
            else hoveredPlanet s)"
    and "g \<noteq> Point \<Longrightarrow> filter isHighlight fx = []"
    by blast+
qed

lemma truthy_not_empty: "truthy p \<Longrightarrow> p \<noteq> Some []"
  by (auto simp: truthy_def)

lemma not_truthy_iff: "\<not> truthy p \<longleftrightarrow> p = None \<or> p = Some []"
  by (auto simp: truthy_def split: option.splits)

lemma step_hovered_inv:
  assumes "step s x = (r, s', fx)" and "hoveredPlanet s \<noteq> Some []"
  shows "hoveredPlanet s' \<noteq> Some []"
proof (cases x)
  case (ProcessHand e lmo)
  show ?thesis
  proof (cases r)
    case TypeError
    then show ?thesis
      using assms ProcessHand processHand_TypeErrorD [of s e lmo s' fx] by simp
  next
    case Returned
    show ?thesis
    proof (cases lmo)
      case None
      then show ?thesis using assms ProcessHand by simp
    next
      case (Some lm)
      from assms(1) ProcessHand Returned Some
      have "processHand s e (Some lm) = (Returned, s', fx)" by simp
      from processHand_ReturnedD [OF this] obtain c g fx2 where
        h: "handleGesture (beforeHandler s e c (distance (lm ! THUMB_TIP) (lm ! INDEX_TIP)) g) e lm g
              = Some (s', fx2)"
        by blast
      have "hoveredPlanet (beforeHandler s e c (distance (lm ! THUMB_TIP) (lm ! INDEX_TIP)) g)
              = hoveredPlanet s"
        by (simp add: beforeHandler_def)
      then show ?thesis
        using handleGesture_hovered(1) [OF h] assms(2)
        by (auto simp: not_truthy_iff dest: truthy_not_empty split: if_splits)
    qed
  qed
qed (use assms in \<open>auto simp: onHandLost_def update_def manualRotate_def manualZoom_def
       manualSelectPlanet_def manualFollowPlanet_def manualReset_def Let_def split: if_splits\<close>)

lemma final_hovered_inv:
  "hoveredPlanet s \<noteq> Some [] \<Longrightarrow> hoveredPlanet (final s xs) \<noteq> Some []"
proof (induction xs arbitrary: s)
  case Nil
  then show ?case by simp
next
  case (Cons x xs)
  obtain r s' fx where st: "step s x = (r, s', fx)" by (cases "step s x") auto
  from step_hovered_inv [OF st Cons.prems] have "hoveredPlanet s' \<noteq> Some []" .
  from Cons.IH [OF this] show ?case by (simp add: st)
qed

subsection \<open>The followed planet under the operations\<close>

lemma handleGesture_following:
  assumes "handleGesture s e lm g = Some (s', fx)"
  shows "followingPlanet s' = None \<or> followingPlanet s' = followingPlanet s
       \<or> followingPlanet s' = selectedPlanet s"
proof (cases g)
  case Rotate
  then show ?thesis using assms by auto
next
  case Pinch
  then show ?thesis using assms by auto
next
  case Point
  show ?thesis
  proof (cases "lm_at lm INDEX_TIP")
    case None
    then show ?thesis using assms Point by (simp add: handlePoint_None)
  next
    case (Some it)
    show ?thesis
    proof (cases "truthy (hitTarget e lm)")
      case True
      then show ?thesis using assms Point by (auto simp: handlePoint_hit [OF Some])
    next
      case False
      then show ?thesis
        using assms Point by (auto simp: handlePoint_miss [OF Some] split: if_splits)
    qed
  qed
next
  case Fist
  then show ?thesis using assms by (auto simp: handleFist_def split: if_splits)
next
  case Palm
  then show ?thesis using assms by (auto simp: handlePalm_def split: if_splits)
qed

lemma step_following:
  assumes "step s x = (r, s', fx)" and "\<forall>p. x \<noteq> ManualFollowPlanet p"
  shows "followingPlanet s' = None \<or> followingPlanet s' = followingPlanet s
       \<or> followingPlanet s' = selectedPlanet s"
proof (cases x)
  case (ProcessHand e lmo)
  show ?thesis
  proof (cases r)
    case TypeError
    then show ?thesis
      using assms ProcessHand processHand_TypeErrorD [of s e lmo s' fx] by simp
  next
    case Returned
    show ?thesis
    proof (cases lmo)
      case None
      then show ?thesis using assms ProcessHand by auto
    next
      case (Some lm)
      from assms(1) ProcessHand Returned Some
      have "processHand s e (Some lm) = (Returned, s', fx)" by simp
      from processHand_ReturnedD [OF this] obtain c g fx2 where
        h: "handleGesture (beforeHandler s e c (distance (lm ! THUMB_TIP) (lm ! INDEX_TIP)) g) e lm g
              = Some (s', fx2)"
        by blast
      show ?thesis
        using handleGesture_following [OF h] by (simp add: beforeHandler_def)
    qed
  qed
next
  case (ManualFollowPlanet p)
  then show ?thesis using assms(2) by simp
qed (use assms in \<open>auto simp: onHandLost_def update_def manualRotate_def manualZoom_def
       manualSelectPlanet_def manualReset_def Let_def split: if_splits\<close>)

lemma final_following:
  assumes "\<forall>p. ManualFollowPlanet p \<notin> set xs"
    and "followingPlanet s = None \<or> followingPlanet s \<in> H"
  shows "followingPlanet (final s xs) = None
       \<or> followingPlanet (final s xs) \<in> H \<union> selectedPlanet ` set (visited s xs)"
  using assms
proof (induction xs arbitrary: s H)
  case Nil
  then show ?case by auto
next
  case (Cons x xs)
  obtain r s' fx where st: "step s x = (r, s', fx)" by (cases "step s x") auto
  have nx: "\<forall>p. x \<noteq> ManualFollowPlanet p" using Cons.prems(1) by auto
  have nxs: "\<forall>p. ManualFollowPlanet p \<notin> set xs" using Cons.prems(1) by auto
  have "followingPlanet s' = None \<or> followingPlanet s' \<in> insert (selectedPlanet s) H"
    using step_following [OF st nx] Cons.prems(2) by auto
  from Cons.IH [OF nxs this]
  show ?case by (auto simp: st)
qed

subsection \<open>A point frame over a target\<close>

lemma point_frame:
  assumes ph: "processHand s e (Some lm) = (Returned, s', fx)"
    and g: "currentGesture s' = Some Point"
    and hit: "hitTarget e lm = Some p" and p: "p \<noteq> []"
  shows "selectedPlanet s' = (if hoverDuration s' > 1500 then Some p else selectedPlanet s)"
    and "filter isPlanetSelected fx =
           (if hoverDuration s' > 1500 \<and> selectedPlanet s \<noteq> Some p
            then [Emit (PlanetSelected (Some p))] else [])"
proof -
  from processHand_ReturnedD [OF ph] g obtain c fx2 where
    h: "handleGesture (beforeHandler s e c (distance (lm ! THUMB_TIP) (lm ! INDEX_TIP)) Point) e lm Point
          = Some (s', fx2)"
    and fx: "fx = (if Some Point \<noteq> currentGesture s then [Emit (GestureEvent Point)] else []) @ fx2"
    by auto
  define B where "B = beforeHandler s e c (distance (lm ! THUMB_TIP) (lm ! INDEX_TIP)) Point"
  have hp: "handlePoint B e lm = Some (s', fx2)" using h by (simp add: B_def)
  then obtain it where it: "lm_at lm INDEX_TIP = Some it"
    by (cases "lm_at lm INDEX_TIP") (simp_all add: handlePoint_None)
  have t: "truthy (hitTarget e lm)" using hit p by (simp add: truthy_def)
  have sB: "selectedPlanet B = selectedPlanet s" by (simp add: B_def beforeHandler_def)
  note eq = hp [unfolded handlePoint_hit [OF it t]]
  have dur: "hoverDuration s' = now_hoverDuration e -
                (if hoveredPlanet B \<noteq> hitTarget e lm then now_hoverStart e else hoverStartTime B)"
    using eq by auto
  show "selectedPlanet s' = (if hoverDuration s' > 1500 then Some p else selectedPlanet s)"
    unfolding dur using eq hit sB by auto
  show "filter isPlanetSelected fx =
           (if hoverDuration s' > 1500 \<and> selectedPlanet s \<noteq> Some p
            then [Emit (PlanetSelected (Some p))] else [])"
    unfolding dur fx using eq hit sB by auto
qed

lemma marsFrames_hit: "\<forall>(e, lm) \<in> set (marsFrames ts). hitTarget e lm = Some ''mars''"
  by (auto simp: marsFrames_def pointingHand_hitTarget)

subsection \<open>What the handlers keep, and the camera commands\<close>

lemma handleGesture_keeps:
  assumes "handleGesture s e lm g = Some (s', fx)"
  shows "pinchDistance s' = pinchDistance s \<and> zoomSensitivity s' = zoomSensitivity s
       \<and> rotationSensitivity s' = rotationSensitivity s
       \<and> handVelocity s' = handVelocity s \<and> handPosition s' = handPosition s"
proof (cases g)
  case Rotate
  then show ?thesis using assms by auto
next
  case Pinch
  then show ?thesis using assms by auto
next
  case Point
  show ?thesis
  proof (cases "lm_at lm INDEX_TIP")
    case None
    then show ?thesis using assms Point by (simp add: handlePoint_None)
  next
    case (Some it)
    show ?thesis
    proof (cases "truthy (hitTarget e lm)")
      case True
      then show ?thesis using assms Point by (auto simp: handlePoint_hit [OF Some])
    next
      case False
      then show ?thesis
        using assms Point by (auto simp: handlePoint_miss [OF Some] split: if_splits)
    qed
  qed
next
  case Fist
  then show ?thesis using assms by (auto simp: handleFist_def split: if_splits)
next
  case Palm
  then show ?thesis using assms by (auto simp: handlePalm_def split: if_splits)
qed

lemma processHand_keeps:
  assumes "processHand s e (Some lm) = (Returned, s', fx)"
  shows "pinchDistance s' = distance (lm ! THUMB_TIP) (lm ! INDEX_TIP)"
    and "zoomSensitivity s' = zoomSensitivity s"
    and "rotationSensitivity s' = rotationSensitivity s"
proof -
  from processHand_ReturnedD [OF assms] obtain c g fx2 where
    h: "handleGesture (beforeHandler s e c (distance (lm ! THUMB_TIP) (lm ! INDEX_TIP)) g) e lm g
          = Some (s', fx2)"
    by blast
  from handleGesture_keeps [OF h]
  show "pinchDistance s' = distance (lm ! THUMB_TIP) (lm ! INDEX_TIP)"
    and "zoomSensitivity s' = zoomSensitivity s"
    and "rotationSensitivity s' = rotationSensitivity s"
    by (simp_all add: beforeHandler_def)
qed

lemma handlePinch_eq:
  assumes "handlePinch s lm = Some fx"
  shows "fx = [AdjustZoom (- (distance (lm ! THUMB_TIP) (lm ! INDEX_TIP) - previousPinchDistance s)
                           * zoomSensitivity s)]"
  using assms unfolding handlePinch_def
  by (auto simp: bind_eq_Some_conv Let_def algebra_simps dest!: lm_at_eq_Some)

lemma closedHand_pinch_step:
  assumes "\<bar>d\<bar> < 0.08"
  shows "processHand s e (Some (closedHand d)) =
     (Returned, beforeHandler s e \<lparr>v_x = 0.5, v_y = 0.5\<rparr> \<bar>d\<bar> Pinch,
      (if Some Pinch \<noteq> currentGesture s then [Emit (GestureEvent Pinch)] else [])
      @ [AdjustZoom (- (\<bar>d\<bar> - pinchDistance s) * zoomSensitivity s)])"
proof -
  have len: "20 < length (closedHand d)" by (simp add: sample_frames)
  obtain t' where dg: "detectGesture s e (closedHand d) = Some (Pinch, t')"
    using closedHand_label [of s e d] assms by auto
  show ?thesis
    by (rule processHand_step [OF closedHand_palm dg, THEN trans])
       (simp_all add: closedHand_distance handlePinch_def lm_at_frame [OF len] beforeHandler_def
          algebra_simps)
qed

lemma twoFingerHand_palm: "getPalmCenter (twoFingerHand x) = Some \<lparr>v_x = x, v_y = 0.5\<rparr>"
  by (simp add: sample_frames eval_frame)

lemma twoFingerHand_label: "\<exists>t'. detectGesture t e (twoFingerHand x) = Some (Rotate, t')"
proof -
  have len: "20 < length (twoFingerHand x)" by (simp add: sample_frames)
  have f: "isThumbExtended (twoFingerHand x) = Some False"
    "isFingerExtended (twoFingerHand x) Index = Some True"
    "isFingerExtended (twoFingerHand x) Middle = Some True"
    "isFingerExtended (twoFingerHand x) Ring = Some False"
    "isFingerExtended (twoFingerHand x) Pinky = Some False"
    by (simp_all add: sample_frames eval_frame)
  have d: "distance (twoFingerHand x ! THUMB_TIP) (twoFingerHand x ! INDEX_TIP) = 0.2"
    by (simp add: sample_frames eval_frame)
  from detectGesture_frame [OF len, of t e]
  show ?thesis
    by (auto simp: f d GestureLabel_spec_def)
qed

lemma twoFingerHand_step:
  "processHand s e (Some (twoFingerHand x)) =
     (Returned,
      beforeHandler s e \<lparr>v_x = x, v_y = 0.5\<rparr>
        (distance (twoFingerHand x ! THUMB_TIP) (twoFingerHand x ! INDEX_TIP)) Rotate,
      (if Some Rotate \<noteq> currentGesture s then [Emit (GestureEvent Rotate)] else [])
      @ handleRotation (beforeHandler s e \<lparr>v_x = x, v_y = 0.5\<rparr>
        (distance (twoFingerHand x ! THUMB_TIP) (twoFingerHand x ! INDEX_TIP)) Rotate))"
proof -
  obtain t' where dg: "detectGesture s e (twoFingerHand x) = Some (Rotate, t')"
    using twoFingerHand_label by blast
  show ?thesis
    by (rule processHand_step [OF twoFingerHand_palm dg]) simp
qed

lemma handleGesture_base:
  assumes "handleGesture s e lm g = Some (s', fx)"
  shows "handleGesture (s\<lparr> basePinchDistance := b \<rparr>) e lm g
           = Some (s'\<lparr> basePinchDistance := b \<rparr>, fx)"
proof (cases g)
  case Rotate
  then show ?thesis using assms by (auto simp: handleRotation_def)
next
  case Pinch
  then show ?thesis using assms by (auto simp: handlePinch_def)
next
  case Point
  show ?thesis
  proof (cases "lm_at lm INDEX_TIP")
    case None
    then show ?thesis using assms Point by (simp add: handlePoint_None)
  next
    case (Some it)
    show ?thesis
    proof (cases "truthy (hitTarget e lm)")
      case True
      then show ?thesis using assms Point by (auto simp: handlePoint_hit [OF Some])
    next
      case False
      then show ?thesis
        using assms Point by (auto simp: handlePoint_miss [OF Some] split: if_splits)
    qed
  qed
next
  case Fist
  then show ?thesis using assms by (auto simp: handleFist_def split: if_splits)
next
  case Palm
  then show ?thesis using assms by (auto simp: handlePalm_def split: if_splits)
qed

lemma processHand_base:
  assumes "20 < length lm"
  shows "snd (snd (processHand (s\<lparr> basePinchDistance := b \<rparr>) e (Some lm)))
           = snd (snd (processHand s e (Some lm)))"
proof -
  obtain c where c: "getPalmCenter lm = Some c"
    using getPalmCenter_Some [OF assms] by blast
  obtain g t' where dg: "detectGesture s e lm = Some (g, t')"
    using detectGesture_frame [OF assms, of s e] by blast
  define d where "d = distance (lm ! THUMB_TIP) (lm ! INDEX_TIP)"
  obtain s7 fx2 where h: "handleGesture (beforeHandler s e c d g) e lm g = Some (s7, fx2)"
    using handleGesture_Some [OF assms] by blast
  have B: "beforeHandler (s\<lparr> basePinchDistance := b \<rparr>) e c d g
             = (beforeHandler s e c d g)
                 \<lparr> basePinchDistance := (if d < PINCH_THRESHOLD \<and> \<not> isPinching s
                                          then cameraOrbit_radius e else b) \<rparr>"
    by (simp add: beforeHandler_def)
  have 1: "processHand s e (Some lm) =
        (Returned, s7, (if Some g \<noteq> currentGesture s then [Emit (GestureEvent g)] else []) @ fx2)"
    by (rule processHand_step [OF c dg h [unfolded d_def]])
  have 2: "processHand (s\<lparr> basePinchDistance := b \<rparr>) e (Some lm) =
        (Returned,
         s7\<lparr> basePinchDistance := (if d < PINCH_THRESHOLD \<and> \<not> isPinching s
                                     then cameraOrbit_radius e else b) \<rparr>,
         (if Some g \<noteq> currentGesture (s\<lparr> basePinchDistance := b \<rparr>)
          then [Emit (GestureEvent g)] else []) @ fx2)"
    by (rule processHand_step [OF c dg])
       (use handleGesture_base [OF h] in \<open>simp add: B d_def [symmetric]\<close>)
  show ?thesis unfolding 1 2 by simp
qed

section \<open>The claims\<close>

subsection \<open>The classifier\<close>

text \<open>
  Claim C1. On every frame of 21 landmarks \<open>detectGesture\<close> returns, and returns one label:
  with \<open>d\<close> the distance from thumb tip to index tip and the five finger states as
  \<open>isThumbExtended\<close> and \<open>isFingerExtended\<close> compute them, the label is \<open>Pinch\<close> if
  \<open>d < 0.08\<close>, else \<open>Fist\<close> if no finger is extended, else \<open>Point\<close> if the index finger is
  extended and middle, ring and pinky are not (the thumb is not looked at), else \<open>Palm\<close> if
  all five are extended, else \<open>Rotate\<close>.
\<close>

theorem detectGesture_priority:
  assumes "20 < length lm"
  shows "\<exists>thumb index middle ring pinky s'.
           isThumbExtended lm = Some thumb
         \<and> isFingerExtended lm Index = Some index
         \<and> isFingerExtended lm Middle = Some middle
         \<and> isFingerExtended lm Ring = Some ring
         \<and> isFingerExtended lm Pinky = Some pinky
         \<and> detectGesture s e lm =
             Some (GestureLabel_spec (distance (lm ! THUMB_TIP) (lm ! INDEX_TIP))
                     thumb index middle ring pinky, s')"
  using assms by (rule detectGesture_frame)

text \<open>The frame with only the index finger extended is a \<open>Point\<close>.\<close>

theorem detectGesture_priority_witness:
  "20 < length pointingHand
   \<and> map_option fst (detectGesture init (sampleEnv 0 None) pointingHand) = Some Point"
proof -
  have len: "20 < length pointingHand" by (simp add: sample_frames)
  from detectGesture_priority [OF len, of init "sampleEnv 0 None"]
  show ?thesis
    using len by (auto simp: pointingHand_fingers pointingHand_distance GestureLabel_spec_def)
qed

subsection \<open>A missing frame\<close>

text \<open>
  Claim C8. \<open>processHand\<close> on a \<open>null\<close> or missing frame returns without throwing, leaves
  every field of the controller as it is and issues no command and no event.
\<close>

theorem processHand_null: "processHand s e None = (Returned, s, [])"
  by simp

subsection \<open>Losing the hand\<close>

text \<open>
  Claim C7. In every controller the operations can reach from the constructor,
  \<open>onHandLost\<close> sets the current gesture to none, clears the pinch flag and clears the
  hover target, asking the scene to drop the highlight exactly when there was a hover
  target; every other field, the selected and the followed planet among them, stays.
\<close>

theorem onHandLost_clears_hover_only:
  "onHandLost (final init xs) =
     ((final init xs)\<lparr> currentGesture := None, isPinching := False, hoveredPlanet := None \<rparr>,
      if hoveredPlanet (final init xs) = None then [] else [HighlightPlanet None])"
proof -
  have "hoveredPlanet init \<noteq> Some []" by (simp add: init_def)
  then have "hoveredPlanet (final init xs) \<noteq> Some []" by (rule final_hovered_inv)
  then show ?thesis
    by (cases "hoveredPlanet (final init xs)") (auto simp: onHandLost_def truthy_def Let_def)
qed

subsection \<open>The hover target outside the point gesture\<close>

text \<open>
  Claim C10. A frame that \<open>processHand\<close> classifies as anything but \<open>Point\<close> leaves the
  hover target as it is and sends the scene no highlight (no \<open>highlightPlanet\<close>, and no
  \<open>selectPlanet\<close>, which highlights too). Among all public operations only \<open>onHandLost\<close>
  and a frame classified as \<open>Point\<close> change the hover target, and such a frame clears it
  only when the hit test finds no object.
\<close>

theorem hover_kept_outside_point:
  "(processHand s e (Some lm) = (Returned, s', fx) \<and> currentGesture s' \<noteq> Some Point
      \<longrightarrow> hoveredPlanet s' = hoveredPlanet s \<and> filter isHighlight fx = [])
   \<and> (step s x = (r, s'', fx') \<and> hoveredPlanet s'' \<noteq> hoveredPlanet s
      \<longrightarrow> x = OnHandLost
          \<or> (\<exists>e' lm'. x = ProcessHand e' (Some lm') \<and> r = Returned
                \<and> currentGesture s'' = Some Point
                \<and> (hoveredPlanet s'' = None \<longrightarrow> \<not> truthy (hitTarget e' lm'))))"
proof (intro conjI impI)
  assume a: "processHand s e (Some lm) = (Returned, s', fx) \<and> currentGesture s' \<noteq> Some Point"
  from processHand_ReturnedD [of s e lm s' fx] a obtain c g fx2 where
    h: "handleGesture (beforeHandler s e c (distance (lm ! THUMB_TIP) (lm ! INDEX_TIP)) g) e lm g
          = Some (s', fx2)"
    and fx: "fx = (if Some g \<noteq> currentGesture s then [Emit (GestureEvent g)] else []) @ fx2"
    and g: "currentGesture s' = Some g"
    by blast
  have ng: "g \<noteq> Point" using a g by auto
  have hb: "hoveredPlanet (beforeHandler s e c (distance (lm ! THUMB_TIP) (lm ! INDEX_TIP)) g)
              = hoveredPlanet s"
    by (simp add: beforeHandler_def)
  show "hoveredPlanet s' = hoveredPlanet s"
    using handleGesture_hovered(1) [OF h] ng hb by simp
  show "filter isHighlight fx = []"
    using handleGesture_hovered(2) [OF h ng] fx by simp
next
  assume a: "step s x = (r, s'', fx') \<and> hoveredPlanet s'' \<noteq> hoveredPlanet s"
  show "x = OnHandLost
          \<or> (\<exists>e' lm'. x = ProcessHand e' (Some lm') \<and> r = Returned
                \<and> currentGesture s'' = Some Point
                \<and> (hoveredPlanet s'' = None \<longrightarrow> \<not> truthy (hitTarget e' lm')))"
  proof (cases x)
    case (ProcessHand e' lmo)
    show ?thesis
    proof (cases r)
      case TypeError
      then show ?thesis
        using a ProcessHand processHand_TypeErrorD [of s e' lmo s'' fx'] by simp
    next
      case Returned
      show ?thesis
      proof (cases lmo)
        case None
        then show ?thesis using a ProcessHand by auto
      next
        case (Some lm')
        from a ProcessHand Returned Some
        have ph: "processHand s e' (Some lm') = (Returned, s'', fx')" by simp
        from processHand_ReturnedD [OF ph] obtain c g fx2 where
          h: "handleGesture (beforeHandler s e' c (distance (lm' ! THUMB_TIP) (lm' ! INDEX_TIP)) g)
                e' lm' g = Some (s'', fx2)"
          and g: "currentGesture s'' = Some g"
          by blast
        have hb: "hoveredPlanet (beforeHandler s e' c (distance (lm' ! THUMB_TIP) (lm' ! INDEX_TIP)) g)
              = hoveredPlanet s"
          by (simp add: beforeHandler_def)
        have gp: "g = Point"
          using handleGesture_hovered(1) [OF h] hb a by (auto split: if_splits)
        have "hoveredPlanet s'' = None \<longrightarrow> \<not> truthy (hitTarget e' lm')"
          using handleGesture_hovered(1) [OF h] gp by (auto simp: truthy_def split: if_splits)
        then show ?thesis using ProcessHand Returned Some g gp by simp
      qed
    qed
  qed (use a in \<open>auto simp: onHandLost_def update_def manualRotate_def manualZoom_def
         manualSelectPlanet_def manualFollowPlanet_def manualReset_def\<close>)
qed

text \<open>
  A hover on mars survives a fist frame and is cleared by \<open>onHandLost\<close>.
\<close>

theorem hover_kept_outside_point_witness:
  "hoveredPlanet (final init [ProcessHand (sampleEnv 0 (Some ''mars'')) (Some pointingHand)])
     = Some ''mars''
   \<and> hoveredPlanet (final init [ProcessHand (sampleEnv 0 (Some ''mars'')) (Some pointingHand),
                                ProcessHand (sampleEnv 40 None) (Some (closedHand 0.1))])
     = Some ''mars''
   \<and> hoveredPlanet (final init [ProcessHand (sampleEnv 0 (Some ''mars'')) (Some pointingHand),
                                OnHandLost])
     = None"
proof -
  define s1 where "s1 = final init [ProcessHand (sampleEnv 0 (Some ''mars'')) (Some pointingHand)]"
  define r2 where "r2 = processHand s1 (sampleEnv 40 None) (Some (closedHand 0.1))"
  have h1: "hoveredPlanet s1 = Some ''mars''"
    unfolding s1_def by (simp add: eval_run)
  have p2: "processHand s1 (sampleEnv 40 None) (Some (closedHand 0.1))
              = (Returned, fst (snd r2), snd (snd r2))"
    unfolding r2_def s1_def by (simp add: eval_run)
  have g2: "currentGesture (fst (snd r2)) \<noteq> Some Point"
    unfolding r2_def s1_def by (simp add: eval_run)
  have st: "step s1 OnHandLost = (Returned, fst (onHandLost s1), snd (onHandLost s1))"
    by simp
  have h3: "hoveredPlanet (fst (onHandLost s1)) \<noteq> hoveredPlanet s1"
    unfolding s1_def by (simp add: eval_run)
  from hover_kept_outside_point [of s1 "sampleEnv 40 None" "closedHand 0.1" "fst (snd r2)"
      "snd (snd r2)" OnHandLost Returned "fst (onHandLost s1)" "snd (onHandLost s1)"]
    p2 g2 st h3
  have "hoveredPlanet (fst (snd r2)) = hoveredPlanet s1" by blast
  then show ?thesis
    using h1 unfolding r2_def s1_def by (simp add: eval_run)
qed

subsection \<open>The follow toggle\<close>

text \<open>
  Claim C2. A fist held through the window from 500 to 700 ms, with mars selected, should
  leave \<open>followingPlanet\<close> as one toggle leaves it. \<open>handleFist\<close> toggles on every frame whose
  duration lies in the window: with one frame in the window (at 550 ms) mars is followed;
  with two (at 550 and 600 ms) the second frame undoes the first, the scene is told to
  follow and then to stop, and nothing is followed at the end of the hold.
\<close>

theorem fist_hold_toggles_per_frame:
  "followingPlanet (final init [ManualSelectPlanet (Some ''mars''),
        ProcessHand (sampleEnv 1000 None) (Some (closedHand 0.1)),
        ProcessHand (sampleEnv 1550 None) (Some (closedHand 0.1))]) = Some ''mars''
   \<and> followingPlanet (final init [ManualSelectPlanet (Some ''mars''),
        ProcessHand (sampleEnv 1000 None) (Some (closedHand 0.1)),
        ProcessHand (sampleEnv 1550 None) (Some (closedHand 0.1)),
        ProcessHand (sampleEnv 1600 None) (Some (closedHand 0.1)),
        ProcessHand (sampleEnv 1750 None) (Some (closedHand 0.1))]) = None
   \<and> effects init [ManualSelectPlanet (Some ''mars''),
        ProcessHand (sampleEnv 1000 None) (Some (closedHand 0.1)),
        ProcessHand (sampleEnv 1550 None) (Some (closedHand 0.1)),
        ProcessHand (sampleEnv 1600 None) (Some (closedHand 0.1)),
        ProcessHand (sampleEnv 1750 None) (Some (closedHand 0.1))]
      = [SelectPlanet (Some ''mars''), FocusOnPlanet (Some ''mars''),
         Emit (PlanetSelected (Some ''mars'')),
         Emit (GestureEvent Fist),
         FollowPlanet (Some ''mars''), Emit (PlanetFollowing (Some ''mars'')),
         StopFollowing, Emit (PlanetFollowing None)]"
  by (simp add: eval_run effects_def)

subsection \<open>What can be followed\<close>

text \<open>
  Claim C4, as amended. Under every sequence of public operations without
  \<open>manualFollowPlanet\<close>, from the constructor (frames that make \<open>processHand\<close> throw
  included), \<open>followingPlanet\<close> is \<open>null\<close> or the value \<open>selectedPlanet\<close> had in some
  controller the sequence went through. \<open>manualFollowPlanet\<close> sets \<open>followingPlanet\<close> to
  its argument, selected or not.
\<close>

theorem following_was_selected:
  "((\<forall>p. ManualFollowPlanet p \<notin> set xs)
      \<longrightarrow> followingPlanet (final init xs) = None
          \<or> followingPlanet (final init xs) \<in> selectedPlanet ` set (visited init xs))
   \<and> followingPlanet (fst (manualFollowPlanet s planetName)) = planetName"
proof (intro conjI impI)
  assume a: "\<forall>p. ManualFollowPlanet p \<notin> set xs"
  have "followingPlanet init = None \<or> followingPlanet init \<in> {}" by (simp add: init_def)
  from final_following [OF a this]
  show "followingPlanet (final init xs) = None
          \<or> followingPlanet (final init xs) \<in> selectedPlanet ` set (visited init xs)"
    by simp
next
  show "followingPlanet (fst (manualFollowPlanet s planetName)) = planetName"
    by (simp add: manualFollowPlanet_def)
qed

text \<open>Mars, selected by hand and then followed by a fist, was selected before.\<close>

theorem following_was_selected_witness:
  "(\<forall>p. ManualFollowPlanet p \<notin> set [ManualSelectPlanet (Some ''mars''),
        ProcessHand (sampleEnv 1000 None) (Some (closedHand 0.1)),
        ProcessHand (sampleEnv 1550 None) (Some (closedHand 0.1))])
   \<and> followingPlanet (final init [ManualSelectPlanet (Some ''mars''),
        ProcessHand (sampleEnv 1000 None) (Some (closedHand 0.1)),
        ProcessHand (sampleEnv 1550 None) (Some (closedHand 0.1))]) = Some ''mars''
   \<and> Some ''mars'' \<in> selectedPlanet ` set (visited init [ManualSelectPlanet (Some ''mars''),
        ProcessHand (sampleEnv 1000 None) (Some (closedHand 0.1)),
        ProcessHand (sampleEnv 1550 None) (Some (closedHand 0.1))])"
proof -
  have n: "\<forall>p. ManualFollowPlanet p \<notin> set [ManualSelectPlanet (Some ''mars''),
        ProcessHand (sampleEnv 1000 None) (Some (closedHand 0.1)),
        ProcessHand (sampleEnv 1550 None) (Some (closedHand 0.1))]"
    by simp
  have f: "followingPlanet (final init [ManualSelectPlanet (Some ''mars''),
        ProcessHand (sampleEnv 1000 None) (Some (closedHand 0.1)),
        ProcessHand (sampleEnv 1550 None) (Some (closedHand 0.1))]) = Some ''mars''"
    by (simp add: eval_run)
  from following_was_selected [of "[ManualSelectPlanet (Some ''mars''),
        ProcessHand (sampleEnv 1000 None) (Some (closedHand 0.1)),
        ProcessHand (sampleEnv 1550 None) (Some (closedHand 0.1))]" init None] n f
  show ?thesis by simp
qed

text \<open>
  The claim as first stated, for all operations, fails on \<open>manualFollowPlanet\<close>: from the
  constructor it follows mars although \<open>selectedPlanet\<close> never was anything but \<open>null\<close>.
\<close>

theorem following_was_selected_counterexample:
  "followingPlanet (final init [ManualFollowPlanet (Some ''mars'')]) = Some ''mars''
   \<and> selectedPlanet ` set (visited init [ManualFollowPlanet (Some ''mars'')]) = {None}"
  by (simp add: eval_run)

subsection \<open>Dwell selection\<close>

text \<open>
  Claim C3, as amended. Take any controller and any sequence of frames that
  \<open>processHand\<close> classifies as \<open>Point\<close>, all with the same planet \<open>p\<close> as hit target. A
  frame whose hover duration is at most 1500 ms emits no \<open>planetSelected\<close>. Over the whole
  sequence exactly one \<open>planetSelected(p)\<close> is emitted if \<open>p\<close> is not the selected planet
  at the start and the hover duration of some frame exceeds 1500 ms; otherwise none is
  emitted. So the event does not fire again on later frames, and it does not fire at all
  for a planet that is selected already.
\<close>

theorem dwell_selects_once:
  assumes "\<forall>(e, lm) \<in> set fs. hitTarget e lm = Some p" and "p \<noteq> []"
    and "\<forall>r \<in> set (run s (frameOps fs)).
           fst r = Returned \<and> currentGesture (fst (snd r)) = Some Point"
  shows "filter isPlanetSelected (effects s (frameOps fs)) =
           (if selectedPlanet s \<noteq> Some p
               \<and> (\<exists>r \<in> set (run s (frameOps fs)). hoverDuration (fst (snd r)) > 1500)
            then [Emit (PlanetSelected (Some p))] else [])
       \<and> (\<forall>r \<in> set (run s (frameOps fs)).
             hoverDuration (fst (snd r)) \<le> 1500 \<longrightarrow> filter isPlanetSelected (snd (snd r)) = [])"
  using assms
proof (induction fs arbitrary: s)
  case Nil
  then show ?case by (simp add: frameOps_def effects_def)
next
  case (Cons f fs)
  obtain e lm where f: "f = (e, lm)" by (cases f)
  obtain r1 s1 fx1 where st: "processHand s e (Some lm) = (r1, s1, fx1)"
    by (cases "processHand s e (Some lm)") auto
  have run_eq: "run s (frameOps (f # fs)) = (r1, s1, fx1) # run s1 (frameOps fs)"
    by (simp add: frameOps_def f st)
  have eff_eq: "effects s (frameOps (f # fs)) = fx1 @ effects s1 (frameOps fs)"
    by (simp add: effects_def run_eq)
  have r1: "r1 = Returned" and g1: "currentGesture s1 = Some Point"
    using Cons.prems(3) unfolding run_eq by simp_all
  have hit: "hitTarget e lm = Some p" using Cons.prems(1) f by simp
  have ph: "processHand s e (Some lm) = (Returned, s1, fx1)" using st r1 by simp
  note pf = point_frame [OF ph g1 hit Cons.prems(2)]
  have prem1: "\<forall>(e, lm) \<in> set fs. hitTarget e lm = Some p" using Cons.prems(1) by simp
  have prem3: "\<forall>r \<in> set (run s1 (frameOps fs)).
           fst r = Returned \<and> currentGesture (fst (snd r)) = Some Point"
    using Cons.prems(3) unfolding run_eq by simp
  note IH = Cons.IH [OF prem1 Cons.prems(2) prem3]
  show ?case
  proof (cases "hoverDuration s1 > 1500")
    case True
    then have sel1: "selectedPlanet s1 = Some p" using pf(1) by simp
    show ?thesis
      unfolding run_eq eff_eq using IH pf(2) sel1 True by auto
  next
    case False
    then have sel1: "selectedPlanet s1 = selectedPlanet s" using pf(1) by simp
    show ?thesis
      unfolding run_eq eff_eq using IH pf(2) sel1 False by auto
  qed
qed

text \<open>
  Four frames over mars, 0, 1000, 1600 and 2000 ms into the hover: one event.
\<close>

theorem dwell_selects_once_witness:
  "map (\<lambda>r. hoverDuration (fst (snd r))) (run init (frameOps (marsFrames [0, 1000, 1600, 2000])))
     = [0, 1000, 1600, 2000]
   \<and> filter isPlanetSelected (effects init (frameOps (marsFrames [0, 1000, 1600, 2000])))
     = [Emit (PlanetSelected (Some ''mars''))]"
proof -
  have r: "map (\<lambda>r. (fst r, currentGesture (fst (snd r)), hoverDuration (fst (snd r))))
             (run init (frameOps (marsFrames [0, 1000, 1600, 2000])))
           = [(Returned, Some Point, 0), (Returned, Some Point, 1000),
              (Returned, Some Point, 1600), (Returned, Some Point, 2000)]"
    by (simp add: frameOps_def marsFrames_def eval_run)
  have h3: "\<forall>r \<in> set (run init (frameOps (marsFrames [0, 1000, 1600, 2000]))).
              fst r = Returned \<and> currentGesture (fst (snd r)) = Some Point"
    using r by (auto simp: frameOps_def marsFrames_def)
  have ex: "\<exists>r \<in> set (run init (frameOps (marsFrames [0, 1000, 1600, 2000]))).
              hoverDuration (fst (snd r)) > 1500"
    using r by (auto simp: frameOps_def marsFrames_def)
  have sel: "selectedPlanet init \<noteq> Some ''mars''" by (simp add: init_def)
  have ne: "''mars'' \<noteq> []" by simp
  from dwell_selects_once [OF marsFrames_hit ne h3] ex sel r
  show ?thesis by auto
qed

text \<open>
  The claim as first stated promises the event once the hover duration exceeds 1500 ms.
  With mars selected before (by \<open>manualSelectPlanet\<close>), a hover of 2000 ms over mars emits
  none.
\<close>

theorem dwell_selects_once_counterexample:
  "map (\<lambda>r. (fst r, currentGesture (fst (snd r)), hoverDuration (fst (snd r))))
     (run (final init [ManualSelectPlanet (Some ''mars'')]) (frameOps (marsFrames [0, 2000])))
     = [(Returned, Some Point, 0), (Returned, Some Point, 2000)]
   \<and> filter isPlanetSelected
        (effects (final init [ManualSelectPlanet (Some ''mars'')]) (frameOps (marsFrames [0, 2000])))
     = []"
  by (simp add: frameOps_def marsFrames_def effects_def eval_run)

subsection \<open>The camera commands\<close>

text \<open>
  Claim C5. Of two frames processed one after the other, the second classified as \<open>Pinch\<close>:
  the second issues one zoom command, and its argument is minus (the thumb-tip to
  index-tip distance of the second frame minus that of the first) times the zoom
  sensitivity, which no frame changes and which the constructor sets to 100. When the
  distance goes from 0.05 to 0.03 the command is \<open>0.02 * zoomSensitivity\<close>, positive for a
  positive sensitivity.
\<close>

theorem pinch_zoom_delta:
  assumes "processHand s0 e1 (Some lm1) = (Returned, s1, fx1)"
    and "processHand s1 e2 (Some lm2) = (Returned, s2, fx2)"
    and "currentGesture s2 = Some Pinch"
  shows "fx2 = (if currentGesture s1 \<noteq> Some Pinch then [Emit (GestureEvent Pinch)] else [])
               @ [AdjustZoom (- (distance (lm2 ! THUMB_TIP) (lm2 ! INDEX_TIP)
                                 - distance (lm1 ! THUMB_TIP) (lm1 ! INDEX_TIP))
                              * zoomSensitivity s1)]
       \<and> zoomSensitivity s1 = zoomSensitivity s0
       \<and> zoomSensitivity init = 100
       \<and> (distance (lm1 ! THUMB_TIP) (lm1 ! INDEX_TIP) = 0.05
            \<and> distance (lm2 ! THUMB_TIP) (lm2 ! INDEX_TIP) = 0.03
          \<longrightarrow> AdjustZoom (0.02 * zoomSensitivity s1) \<in> set fx2
              \<and> (0 < zoomSensitivity s1 \<longrightarrow> 0 < 0.02 * zoomSensitivity s1))"
proof -
  from processHand_ReturnedD [OF assms(2)] assms(3) obtain c fx where
    h: "handleGesture (beforeHandler s1 e2 c (distance (lm2 ! THUMB_TIP) (lm2 ! INDEX_TIP)) Pinch)
          e2 lm2 Pinch = Some (s2, fx)"
    and fx2: "fx2 = (if Some Pinch \<noteq> currentGesture s1 then [Emit (GestureEvent Pinch)] else []) @ fx"
    by auto
  define B where "B = beforeHandler s1 e2 c (distance (lm2 ! THUMB_TIP) (lm2 ! INDEX_TIP)) Pinch"
  have "handlePinch B lm2 = Some fx" using h by (auto simp: B_def)
  from handlePinch_eq [OF this]
  have "fx = [AdjustZoom (- (distance (lm2 ! THUMB_TIP) (lm2 ! INDEX_TIP) - pinchDistance s1)
                           * zoomSensitivity s1)]"
    by (simp add: B_def beforeHandler_def)
  then have main: "fx2 = (if currentGesture s1 \<noteq> Some Pinch then [Emit (GestureEvent Pinch)] else [])
               @ [AdjustZoom (- (distance (lm2 ! THUMB_TIP) (lm2 ! INDEX_TIP)
                                 - distance (lm1 ! THUMB_TIP) (lm1 ! INDEX_TIP))
                              * zoomSensitivity s1)]"
    using fx2 processHand_keeps(1) [OF assms(1)] by auto
  have part: "distance (lm1 ! THUMB_TIP) (lm1 ! INDEX_TIP) = 0.05
            \<and> distance (lm2 ! THUMB_TIP) (lm2 ! INDEX_TIP) = 0.03
          \<longrightarrow> AdjustZoom (0.02 * zoomSensitivity s1) \<in> set fx2
              \<and> (0 < zoomSensitivity s1 \<longrightarrow> 0 < 0.02 * zoomSensitivity s1)"
    unfolding main by simp
  show ?thesis
    using main part processHand_keeps(2) [OF assms(1)] by (simp add: init_def)
qed

text \<open>From the constructor, a pinch of 0.05 and then of 0.03 zooms by \<open>0.02 * 100\<close>.\<close>

theorem pinch_zoom_delta_witness:
  "snd (snd (processHand
         (fst (snd (processHand init (sampleEnv 0 None) (Some (closedHand 0.05)))))
         (sampleEnv 40 None) (Some (closedHand 0.03))))
     = [AdjustZoom (0.02 * 100)]"
proof -
  define r1 where "r1 = processHand init (sampleEnv 0 None) (Some (closedHand 0.05))"
  define r2 where "r2 = processHand (fst (snd r1)) (sampleEnv 40 None) (Some (closedHand 0.03))"
  have p1: "processHand init (sampleEnv 0 None) (Some (closedHand 0.05))
              = (Returned, fst (snd r1), snd (snd r1))"
    unfolding r1_def by (simp add: closedHand_pinch_step)
  have p2: "processHand (fst (snd r1)) (sampleEnv 40 None) (Some (closedHand 0.03))
              = (Returned, fst (snd r2), snd (snd r2))"
    unfolding r2_def by (simp add: closedHand_pinch_step)
  have g1: "currentGesture (fst (snd r1)) = Some Pinch"
    unfolding r1_def by (simp add: closedHand_pinch_step beforeHandler_def)
  have g2: "currentGesture (fst (snd r2)) = Some Pinch"
    unfolding r2_def by (simp add: closedHand_pinch_step beforeHandler_def)
  have d: "distance (closedHand 0.05 ! THUMB_TIP) (closedHand 0.05 ! INDEX_TIP) = 0.05"
    "distance (closedHand 0.03 ! THUMB_TIP) (closedHand 0.03 ! INDEX_TIP) = 0.03"
    by (simp_all add: closedHand_distance)
  from pinch_zoom_delta [OF p1 p2 g2] g1 d
  show ?thesis unfolding r2_def r1_def by simp
qed

text \<open>
  Claim C6. A frame classified as \<open>Rotate\<close> issues one rotation command,
  \<open>(- handVelocity.x * rotationSensitivity, handVelocity.y * rotationSensitivity)\<close>, where the
  hand velocity is the palm centre of the frame minus the hand position before it; the
  constructor sets the sensitivity to 3. A move of 0.05 in x and none in y gives
  \<open>(- 0.05 * rotationSensitivity, 0)\<close>.
\<close>

theorem rotate_command:
  assumes "processHand s e (Some lm) = (Returned, s', fx)"
    and "currentGesture s' = Some Rotate"
  shows "\<exists>c. getPalmCenter lm = Some c
           \<and> handPosition s' = c
           \<and> handVelocity s' = \<lparr> v_x = v_x c - v_x (handPosition s),
                                  v_y = v_y c - v_y (handPosition s) \<rparr>
           \<and> fx = (if currentGesture s \<noteq> Some Rotate then [Emit (GestureEvent Rotate)] else [])
                  @ [AdjustRotation (- (v_x (handVelocity s') * rotationSensitivity s))
                                    (v_y (handVelocity s') * rotationSensitivity s)]
           \<and> rotationSensitivity init = 3
           \<and> (v_x (handVelocity s') = 0.05 \<and> v_y (handVelocity s') = 0
              \<longrightarrow> AdjustRotation (- 0.05 * rotationSensitivity s) 0 \<in> set fx)"
proof -
  from processHand_ReturnedD [OF assms(1)] assms(2) obtain c fx2 where
    c: "getPalmCenter lm = Some c"
    and h: "handleGesture (beforeHandler s e c (distance (lm ! THUMB_TIP) (lm ! INDEX_TIP)) Rotate)
          e lm Rotate = Some (s', fx2)"
    and fx: "fx = (if Some Rotate \<noteq> currentGesture s then [Emit (GestureEvent Rotate)] else []) @ fx2"
    by auto
  define B where "B = beforeHandler s e c (distance (lm ! THUMB_TIP) (lm ! INDEX_TIP)) Rotate"
  have s': "s' = B" and fx2: "fx2 = handleRotation B"
    using h by (auto simp: B_def)
  have pos: "handPosition s' = c"
    and vel: "handVelocity s' = \<lparr> v_x = v_x c - v_x (handPosition s),
                                  v_y = v_y c - v_y (handPosition s) \<rparr>"
    and sens: "rotationSensitivity s' = rotationSensitivity s"
    by (simp_all add: s' B_def beforeHandler_def)
  have main: "fx = (if currentGesture s \<noteq> Some Rotate then [Emit (GestureEvent Rotate)] else [])
                  @ [AdjustRotation (- (v_x (handVelocity s') * rotationSensitivity s))
                                    (v_y (handVelocity s') * rotationSensitivity s)]"
    unfolding fx fx2 s' [symmetric] handleRotation_def sens by (auto simp: Let_def)
  have part: "v_x (handVelocity s') = 0.05 \<and> v_y (handVelocity s') = 0
              \<longrightarrow> AdjustRotation (- 0.05 * rotationSensitivity s) 0 \<in> set fx"
    unfolding main by simp
  show ?thesis
    using c pos vel main part by (simp add: init_def)
qed

text \<open>From the constructor, whose hand position is \<open>(0.5, 0.5)\<close>, a hand at \<open>(0.55, 0.5)\<close>.\<close>

theorem rotate_command_witness:
  "snd (snd (processHand init (sampleEnv 0 None) (Some (twoFingerHand 0.55))))
     = [Emit (GestureEvent Rotate), AdjustRotation (- 0.05 * 3) 0]"
proof -
  define r where "r = processHand init (sampleEnv 0 None) (Some (twoFingerHand 0.55))"
  have p: "processHand init (sampleEnv 0 None) (Some (twoFingerHand 0.55))
             = (Returned, fst (snd r), snd (snd r))"
    unfolding r_def by (simp add: twoFingerHand_step)
  have g: "currentGesture (fst (snd r)) = Some Rotate"
    unfolding r_def by (simp add: twoFingerHand_step beforeHandler_def)
  have i: "currentGesture init = None" "rotationSensitivity init = 3"
    "handPosition init = \<lparr>v_x = 0.5, v_y = 0.5\<rparr>"
    by (simp_all add: init_def)
  from rotate_command [OF p g]
  show ?thesis unfolding r_def [symmetric] by (auto simp: i twoFingerHand_palm)
qed

subsection \<open>The pinch state\<close>

text \<open>
  Claim C9. On every frame of 21 landmarks \<open>detectGesture\<close>, whatever label it returns,
  moves the pinch distance to the previous pinch distance, stores the distance of the
  frame, and sets the pinch flag to whether that distance is below 0.08; it stores the
  camera radius as base distance exactly when the distance is below 0.08 and the flag was
  not set, and changes nothing else. The base distance is never read for the zoom:
  neither \<open>handlePinch\<close> nor the effects of \<open>processHand\<close> depend on it.
\<close>

theorem pinch_state_updated:
  assumes "20 < length lm"
  shows "(\<exists>g. detectGesture s e lm =
            Some (g, s\<lparr> previousPinchDistance := pinchDistance s,
                        pinchDistance := distance (lm ! THUMB_TIP) (lm ! INDEX_TIP),
                        isPinching := (distance (lm ! THUMB_TIP) (lm ! INDEX_TIP) < 0.08),
                        basePinchDistance :=
                          (if distance (lm ! THUMB_TIP) (lm ! INDEX_TIP) < 0.08 \<and> \<not> isPinching s
                           then cameraOrbit_radius e else basePinchDistance s) \<rparr>))
       \<and> handlePinch (s\<lparr> basePinchDistance := b \<rparr>) lm = handlePinch s lm
       \<and> snd (snd (processHand (s\<lparr> basePinchDistance := b \<rparr>) e (Some lm)))
           = snd (snd (processHand s e (Some lm)))"
proof -
  obtain g t' where dg: "detectGesture s e lm = Some (g, t')"
    using detectGesture_frame [OF assms, of s e] by blast
  from detectGesture_state [OF dg] dg
  have "\<exists>g. detectGesture s e lm =
            Some (g, s\<lparr> previousPinchDistance := pinchDistance s,
                        pinchDistance := distance (lm ! THUMB_TIP) (lm ! INDEX_TIP),
                        isPinching := (distance (lm ! THUMB_TIP) (lm ! INDEX_TIP) < 0.08),
                        basePinchDistance :=
                          (if distance (lm ! THUMB_TIP) (lm ! INDEX_TIP) < 0.08 \<and> \<not> isPinching s
                           then cameraOrbit_radius e else basePinchDistance s) \<rparr>)"
    by (auto simp: PINCH_THRESHOLD_def)
  moreover have "handlePinch (s\<lparr> basePinchDistance := b \<rparr>) lm = handlePinch s lm"
    by (simp add: handlePinch_def)
  ultimately show ?thesis
    using processHand_base [OF assms] by blast
qed

text \<open>
  A fist frame (distance 0.1) stores the distance and leaves the flag and the base; the
  pinch frame after it (distance 0.05) sets the flag and takes the camera radius 80.
\<close>

theorem pinch_state_updated_witness:
  "map_option snd (detectGesture init (sampleEnv 0 None) (closedHand 0.1))
     = Some (init\<lparr> pinchDistance := 0.1 \<rparr>)
   \<and> map_option snd (detectGesture (init\<lparr> pinchDistance := 0.1 \<rparr>) (sampleEnv 40 None)
                        (closedHand 0.05))
     = Some (init\<lparr> previousPinchDistance := 0.1, pinchDistance := 0.05, isPinching := True,
                     basePinchDistance := 80 \<rparr>)"
proof -
  have len: "20 < length (closedHand 0.1)" "20 < length (closedHand 0.05)"
    by (simp_all add: sample_frames)
  from pinch_state_updated [OF len(1), of init "sampleEnv 0 None"]
       pinch_state_updated [OF len(2), of "init\<lparr> pinchDistance := 0.1 \<rparr>" "sampleEnv 40 None"]
  show ?thesis
    by (auto simp: closedHand_distance init_def sampleEnv_fields)
qed

end
